theory Spec2Isabelle
  imports Main "HOL-Library.Sublist" "HOL-Library.AList"
begin

section \<open>JavaScript strings\<close>

text \<open>
  The worker (the third document of \<^verbatim>\<open>src/lib/stores/news.ts.orig\<close>, "Cloudflare Worker -
  CORS Proxy with RSS parsing and caching") is plain JavaScript. A JavaScript string is a
  sequence of UTF-16 code units; a code unit is modelled as a natural number below 65536,
  and the one place where the program makes a code unit from a number
  (\<^verbatim>\<open>String.fromCharCode\<close>) reduces it modulo 65536. String literals of the source are
  written \<open>js ''...''\<close>.
\<close>

type_synonym jstring = "nat list"

definition js :: "string \<Rightarrow> jstring" where
  "js s = map of_char s"

text \<open>\<^verbatim>\<open>text.includes(needle)\<close>: does \<open>needle\<close> occur in \<open>text\<close> as a contiguous run.\<close>

fun str_includes :: "jstring \<Rightarrow> jstring \<Rightarrow> bool" where
  "str_includes [] needle = (needle = [])"
| "str_includes (c # cs) needle = (prefix needle (c # cs) \<or> str_includes cs needle)"


text \<open>
  \<^verbatim>\<open>text.trim()\<close> removes the white space and line terminators of ECMAScript from both
  ends: TAB, LF, VT, FF, CR, SPACE, NBSP, U+1680, U+2000 to U+200A, U+2028, U+2029,
  U+202F, U+205F, U+3000 and U+FEFF.
\<close>

definition is_ws :: "nat \<Rightarrow> bool" where
  "is_ws c = (c \<in> set [9, 10, 11, 12, 13, 32, 160, 5760, 8232, 8233, 8239, 8287, 12288, 65279]
              \<or> (8192 \<le> c \<and> c \<le> 8202))"

definition trim :: "jstring \<Rightarrow> jstring" where
  "trim s = rev (dropWhile is_ws (rev (dropWhile is_ws s)))"

text \<open>
  \<^verbatim>\<open>a || b\<close> on values that are a string, \<^verbatim>\<open>null\<close> or \<^verbatim>\<open>undefined\<close>
  (\<open>None\<close>): the empty string is falsy too.
\<close>

definition truthy :: "jstring option \<Rightarrow> bool" where
  "truthy v = (case v of None \<Rightarrow> False | Some s \<Rightarrow> s \<noteq> [])"

definition or_str :: "jstring option \<Rightarrow> jstring \<Rightarrow> jstring" where
  "or_str v d = (case v of None \<Rightarrow> d | Some s \<Rightarrow> if s = [] then d else s)"

text \<open>\<^verbatim>\<open>String(n)\<close> for a non-negative integer: its decimal digits.\<close>

fun decimal :: "nat \<Rightarrow> jstring" where
  "decimal n = (if n < 10 then [48 + n] else decimal (n div 10) @ [48 + n mod 10])"

declare decimal.simps [simp del]

section \<open>Errors\<close>

text \<open>
  What JavaScript throws is a value of the model: a function that can throw returns
  \<open>error + 'a\<close>, \<open>Inl\<close> the thrown error. \<open>bindE\<close> runs the next step unless the
  previous one threw.
\<close>

datatype error = TypeError (message: jstring) | OtherError (message: jstring)

fun bindE :: "error + 'a \<Rightarrow> ('a \<Rightarrow> error + 'b) \<Rightarrow> error + 'b" where
  "bindE (Inl e) f = Inl e"
| "bindE (Inr x) f = f x"

text \<open>\<^verbatim>\<open>a || e\<close> where \<open>e\<close> is evaluated (and may throw) only when \<open>a\<close> is falsy.\<close>

definition js_or :: "jstring option \<Rightarrow> error + jstring option \<Rightarrow> error + jstring option" where
  "js_or a e = (if truthy a then Inr a else e)"

section \<open>The regular expressions of the worker\<close>

text \<open>
  Every regular expression of the worker is built from literal text, the classes
  \<^verbatim>\<open>[^>]\<close>, \<^verbatim>\<open>[^"']\<close>, \<^verbatim>\<open>[0-9a-f]\<close>, \<^verbatim>\<open>\d\<close> and the lazy \<^verbatim>\<open>[\s\S]*?\<close>. They are modelled
  by matchers that follow the backtracking search of ECMAScript: a matcher is tried at a
  position of the text and returns the capture groups and the text after the match.

  Under flag \<^verbatim>\<open>i\<close> (without \<^verbatim>\<open>u\<close>) a literal ASCII character of a pattern matches
  itself and, for a letter, its other case; no code unit above 127 matches an ASCII
  character.
\<close>

definition lowerc :: "nat \<Rightarrow> nat" where
  "lowerc c = (if 65 \<le> c \<and> c \<le> 90 then c + 32 else c)"

text \<open>Literal text under flag \<^verbatim>\<open>i\<close> at the front of the text: the rest, when it matches.\<close>

fun match_lit_ci :: "jstring \<Rightarrow> jstring \<Rightarrow> jstring option" where
  "match_lit_ci [] t = Some t"
| "match_lit_ci (p # ps) [] = None"
| "match_lit_ci (p # ps) (c # cs) = (if lowerc p = lowerc c then match_lit_ci ps cs else None)"

text \<open>
  \<^verbatim>\<open>[\s\S]*?\<close> followed by literal text that ends the pattern: the shortest run of code
  units after which the literal matches. Returns the run and the text after the literal.
\<close>

fun lazy_until_ci :: "jstring \<Rightarrow> jstring \<Rightarrow> (jstring \<times> jstring) option" where
  "lazy_until_ci lit [] =
     (case match_lit_ci lit [] of Some r \<Rightarrow> Some ([], r) | None \<Rightarrow> None)"
| "lazy_until_ci lit (c # cs) =
     (case match_lit_ci lit (c # cs) of
        Some r \<Rightarrow> Some ([], r)
      | None \<Rightarrow> (case lazy_until_ci lit cs of
                   Some (skipped, r) \<Rightarrow> Some (c # skipped, r)
                 | None \<Rightarrow> None))"

text \<open>
  \<^verbatim>\<open>[^>]*>\<close>: the greedy class stops at the first \<^verbatim>\<open>>\<close> or at the end of the text, and
  giving characters back never helps, since the next pattern character is the one the
  class excludes. So the match runs to the first \<^verbatim>\<open>>\<close>, and fails when there is none.
\<close>

fun skip_tag_rest :: "jstring \<Rightarrow> jstring option" where
  "skip_tag_rest [] = None"
| "skip_tag_rest (c # cs) = (if c = 62 then Some cs else skip_tag_rest cs)"

text \<open>
  A match array: element 0 is the matched text, element \<open>i\<close> the \<open>i\<close>-th capture group.
  \<open>group m i\<close> is \<^verbatim>\<open>m[i]\<close>, \<open>None\<close> for \<^verbatim>\<open>undefined\<close>.
\<close>

type_synonym matcher = "jstring \<Rightarrow> (jstring list \<times> jstring) option"

definition match_array :: "jstring \<Rightarrow> jstring list \<times> jstring \<Rightarrow> jstring list" where
  "match_array t m = take (length t - length (snd m)) t # fst m"

definition group :: "jstring list \<Rightarrow> nat \<Rightarrow> jstring option" where
  "group m i = (if i < length m then Some (m ! i) else None)"

text \<open>
  \<^verbatim>\<open>text.match(re)\<close> without flag \<^verbatim>\<open>g\<close>: the match at the leftmost position where the
  pattern matches, \<open>None\<close> for \<^verbatim>\<open>null\<close>.
\<close>

fun regex_exec :: "matcher \<Rightarrow> jstring \<Rightarrow> jstring list option" where
  "regex_exec rx [] = map_option (match_array []) (rx [])"
| "regex_exec rx (c # cs) =
     (case rx (c # cs) of
        Some m \<Rightarrow> Some (match_array (c # cs) m)
      | None \<Rightarrow> regex_exec rx cs)"

text \<open>
  \<^verbatim>\<open>text.match(re) || []\<close> with flag \<^verbatim>\<open>g\<close>: the matched texts, left to right, each search
  starting where the previous match ended (one position further after an empty match).
  \<open>skip\<close> counts the code units of the previous match still to pass.
\<close>

fun regex_match_all :: "matcher \<Rightarrow> nat \<Rightarrow> jstring \<Rightarrow> jstring list" where
  "regex_match_all rx skip [] =
     (if skip = 0 then (case rx [] of None \<Rightarrow> [] | Some m \<Rightarrow> [hd (match_array [] m)]) else [])"
| "regex_match_all rx skip (c # cs) =
     (if 0 < skip then regex_match_all rx (skip - 1) cs
      else (case rx (c # cs) of
              None \<Rightarrow> regex_match_all rx 0 cs
            | Some m \<Rightarrow>
                (let whole = hd (match_array (c # cs) m)
                 in whole # regex_match_all rx (length whole - 1) cs)))"

text \<open>\<^verbatim>\<open>/<item[\s\S]*?<\/item>/gi\<close> and \<^verbatim>\<open>/<entry[\s\S]*?<\/entry>/gi\<close>, at one position.\<close>

definition element_at :: "jstring \<Rightarrow> matcher" where
  "element_at name t =
     (case match_lit_ci (js ''<'' @ name) t of
        None \<Rightarrow> None
      | Some r \<Rightarrow>
          (case lazy_until_ci (js ''</'' @ name @ js ''>'') r of
             None \<Rightarrow> None
           | Some (inner, rest) \<Rightarrow> Some ([], rest)))"

text \<open>
  The two expressions of \<^verbatim>\<open>extractTag\<close>, at one position:
  \<^verbatim>\<open><TAG[^>]*><!\[CDATA\[([\s\S]*?)\]\]><\/TAG>\<close> and \<^verbatim>\<open><TAG[^>]*>([\s\S]*?)<\/TAG>\<close>, both with
  flag \<^verbatim>\<open>i\<close>. \<^verbatim>\<open>tagName.replace(':', '\\:')\<close> escapes a colon, which then matches itself.
\<close>

definition cdata_at :: "jstring \<Rightarrow> matcher" where
  "cdata_at tagName t =
     (case match_lit_ci (js ''<'' @ tagName) t of
        None \<Rightarrow> None
      | Some r1 \<Rightarrow>
          (case skip_tag_rest r1 of
             None \<Rightarrow> None
           | Some r2 \<Rightarrow>
               (case match_lit_ci (js ''<![CDATA['') r2 of
                  None \<Rightarrow> None
                | Some r3 \<Rightarrow>
                    (case lazy_until_ci (js '']]></'' @ tagName @ js ''>'') r3 of
                       None \<Rightarrow> None
                     | Some (inner, rest) \<Rightarrow> Some ([inner], rest)))))"

definition plain_at :: "jstring \<Rightarrow> matcher" where
  "plain_at tagName t =
     (case match_lit_ci (js ''<'' @ tagName) t of
        None \<Rightarrow> None
      | Some r1 \<Rightarrow>
          (case skip_tag_rest r1 of
             None \<Rightarrow> None
           | Some r2 \<Rightarrow>
               (case lazy_until_ci (js ''</'' @ tagName @ js ''>'') r2 of
                  None \<Rightarrow> None
                | Some (inner, rest) \<Rightarrow> Some ([inner], rest))))"

text \<open>
  \<^verbatim>\<open>/<link[^>]*href=["']([^"']+)["'][^>]*>/i\<close>. After \<^verbatim>\<open>href=\<close> and a quote, the greedy
  \<^verbatim>\<open>[^"']+\<close> takes every code unit up to the next quote (at least one), and that quote
  must be there; then \<^verbatim>\<open>[^>]*>\<close> as above.
\<close>

definition is_quote :: "nat \<Rightarrow> bool" where
  "is_quote c = (c = 34 \<or> c = 39)"

definition href_at :: "jstring \<Rightarrow> (jstring list \<times> jstring) option" where
  "href_at t =
     (case match_lit_ci (js ''href='') t of
        None \<Rightarrow> None
      | Some [] \<Rightarrow> None
      | Some (q # r) \<Rightarrow>
          if \<not> is_quote q then None
          else (let v = takeWhile (\<lambda>c. \<not> is_quote c) r;
                    after = dropWhile (\<lambda>c. \<not> is_quote c) r
                in if v = [] then None
                   else (case after of
                           [] \<Rightarrow> None
                         | q' # r' \<Rightarrow> (case skip_tag_rest r' of
                                        None \<Rightarrow> None
                                      | Some rest \<Rightarrow> Some ([v], rest)))))"

text \<open>
  The greedy \<^verbatim>\<open>[^>]*\<close> before \<^verbatim>\<open>href=\<close> does backtrack: it first takes every code unit up
  to the first \<^verbatim>\<open>>\<close>, then gives them back one by one until the rest of the pattern
  matches. So the last \<^verbatim>\<open>href\<close> before the first \<^verbatim>\<open>>\<close> is the one found.
\<close>

fun link_attrs :: "jstring \<Rightarrow> (jstring list \<times> jstring) option" where
  "link_attrs [] = href_at []"
| "link_attrs (c # cs) =
     (if c = 62 then href_at (c # cs)
      else (case link_attrs cs of
              Some m \<Rightarrow> Some m
            | None \<Rightarrow> href_at (c # cs)))"

definition atom_link_at :: matcher where
  "atom_link_at t =
     (case match_lit_ci (js ''<link'') t of
        None \<Rightarrow> None
      | Some r \<Rightarrow> link_attrs r)"

section \<open>Entity decoding\<close>

text \<open>\<^verbatim>\<open>text.replace(/literal/g, replacement)\<close> for a literal, case-sensitive pattern.\<close>

fun replaceAll :: "jstring \<Rightarrow> jstring \<Rightarrow> jstring \<Rightarrow> jstring" where
  "replaceAll pat rep [] = []"
| "replaceAll pat rep (c # cs) =
     (if pat \<noteq> [] \<and> prefix pat (c # cs)
      then rep @ replaceAll pat rep (drop (length pat - 1) cs)
      else c # replaceAll pat rep cs)"

text \<open>
  \<^verbatim>\<open>parseInt(digits, radix)\<close> on a non-empty run of digits is the integer they denote,
  converted to a double: exact below \<open>2^53 = 9007199254740992\<close>, and above it rounded
  to 53 significant bits (to nearest, ties to even). \<open>excess_bits n\<close> is the number of
  low bits that do not fit. \<^verbatim>\<open>String.fromCharCode\<close> takes the double modulo \<open>2^16\<close>.
  An integer from \<open>2^1024 - 2^970\<close> on becomes \<^verbatim>\<open>Infinity\<close>, which
  \<^verbatim>\<open>String.fromCharCode\<close> takes to 0; the rounded value is a multiple of \<open>2^16\<close>
  there (more than 16 bits are cut), so the same formula gives 0 and needs no extra case.
\<close>

definition digit_val :: "nat \<Rightarrow> nat" where
  "digit_val c = (if 48 \<le> c \<and> c \<le> 57 then c - 48
                  else if 97 \<le> c \<and> c \<le> 102 then c - 87
                  else c - 55)"

definition parseInt :: "jstring \<Rightarrow> nat \<Rightarrow> nat" where
  "parseInt digits radix = foldl (\<lambda>n d. radix * n + digit_val d) 0 digits"

fun excess_bits :: "nat \<Rightarrow> nat" where
  "excess_bits n = (if n < 9007199254740992 then 0 else Suc (excess_bits (n div 2)))"

declare excess_bits.simps [simp del]

definition to_double :: "nat \<Rightarrow> nat" where
  "to_double n =
     (let e = excess_bits n
      in if e = 0 then n
         else (let q = n div 2 ^ e; r = n mod 2 ^ e; half = 2 ^ (e - 1)
               in if half < r \<or> (r = half \<and> odd q) then (q + 1) * 2 ^ e else q * 2 ^ e))"

definition fromCharCode :: "nat \<Rightarrow> jstring" where
  "fromCharCode n = [to_double n mod 65536]"

definition is_hex :: "nat \<Rightarrow> bool" where
  "is_hex c = ((48 \<le> c \<and> c \<le> 57) \<or> (97 \<le> c \<and> c \<le> 102) \<or> (65 \<le> c \<and> c \<le> 70))"

definition is_digit :: "nat \<Rightarrow> bool" where
  "is_digit c = (48 \<le> c \<and> c \<le> 57)"

text \<open>
  \<^verbatim>\<open>&#x([0-9a-f]+);\<close> (flag \<^verbatim>\<open>i\<close>) and \<^verbatim>\<open>&#(\d+);\<close> at the front of the text: the digits
  and the length of the match. The greedy digit run must be followed by the semicolon.
\<close>

definition hex_entity_at :: "jstring \<Rightarrow> (jstring \<times> nat) option" where
  "hex_entity_at t =
     (case match_lit_ci (js ''&#x'') t of
        None \<Rightarrow> None
      | Some r \<Rightarrow>
          (let ds = takeWhile is_hex r
           in if ds \<noteq> [] \<and> prefix [59] (dropWhile is_hex r)
              then Some (ds, length ds + 4) else None))"

definition dec_entity_at :: "jstring \<Rightarrow> (jstring \<times> nat) option" where
  "dec_entity_at t =
     (if prefix (js ''&#'') t
      then (let r = drop 2 t; ds = takeWhile is_digit r
            in if ds \<noteq> [] \<and> prefix [59] (dropWhile is_digit r)
               then Some (ds, length ds + 3) else None)
      else None)"

text \<open>
  \<^verbatim>\<open>text.replace(re, (_, digits) => String.fromCharCode(parseInt(digits, radix)))\<close> with
  flag \<^verbatim>\<open>g\<close>.
\<close>

fun replaceEntities :: "(jstring \<Rightarrow> (jstring \<times> nat) option) \<Rightarrow> nat \<Rightarrow> jstring \<Rightarrow> jstring" where
  "replaceEntities rx radix [] = []"
| "replaceEntities rx radix (c # cs) =
     (case rx (c # cs) of
        Some (digits, n) \<Rightarrow>
          fromCharCode (parseInt digits radix) @ replaceEntities rx radix (drop (n - 1) cs)
      | None \<Rightarrow> c # replaceEntities rx radix cs)"

text \<open>
  \<^verbatim>\<open>
  function decodeHtmlEntities(text) {
      if (!text) return text;
      return text
          .replace(/&lt;/g, '<')
          .replace(/&gt;/g, '>')
          .replace(/&amp;/g, '&')
          .replace(/&quot;/g, '"')
          .replace(/&#39;/g, "'")
          .replace(/&apos;/g, "'")
          .replace(/&#x([0-9a-f]+);/gi, (_, hex) => String.fromCharCode(parseInt(hex, 16)))
          .replace(/&#(\d+);/g, (_, dec) => String.fromCharCode(parseInt(dec, 10)));
  }
  \<close>
\<close>

definition decodeHtmlEntities :: "jstring \<Rightarrow> jstring" where
  "decodeHtmlEntities text =
     (if text = [] then text
      else (let t1 = replaceAll (js ''&lt;'') (js ''<'') text;
                t2 = replaceAll (js ''&gt;'') (js ''>'') t1;
                t3 = replaceAll (js ''&amp;'') (js ''&'') t2;
                t4 = replaceAll (js ''&quot;'') [34] t3;
                t5 = replaceAll (js ''&#39;'') [39] t4;
                t6 = replaceAll (js ''&apos;'') [39] t5;
                t7 = replaceEntities hex_entity_at 16 t6
            in replaceEntities dec_entity_at 10 t7))"

section \<open>Feed normalizer\<close>

text \<open>
  \<^verbatim>\<open>
  function extractTag(xml, tagName) {
      const escapedTag = tagName.replace(':', '\\:');
      const cdataRegex = new RegExp(`<${escapedTag}[^>]*><!\\[CDATA\\[([\\s\\S]*?)\\]\\]><\\/${escapedTag}>`, 'i');
      const cdataMatch = xml.match(cdataRegex);
      if (cdataMatch) {
          return decodeHtmlEntities(cdataMatch[1].trim());
      }
      const regex = new RegExp(`<${escapedTag}[^>]*>([\\s\\S]*?)<\\/${escapedTag}>`, 'i');
      const match = xml.match(regex);
      if (match) {
          return decodeHtmlEntities(match[1].trim());
      }
      return null;
  }
  \<close>
  \<^verbatim>\<open>m[1].trim()\<close> throws a TypeError when \<^verbatim>\<open>m[1]\<close> is \<^verbatim>\<open>undefined\<close>.

  The tag name is spliced into the source text of the two expressions. The worker calls
  \<^verbatim>\<open>extractTag\<close> with twelve literal names only, made of letters and the colon; for
  these the spliced text is the name itself (the escaped colon matches a colon). So the
  tag is a value of the type \<open>tag\<close> of these twelve names, and \<open>tag_name\<close> is its text.
\<close>

datatype tag =
  Title | Link | Description | Subtitle | Published | Updated | Summary | Content
  | PubDate | DcDate | Guid | ContentEncoded

fun tag_name :: "tag \<Rightarrow> jstring" where
  "tag_name Title = js ''title''"
| "tag_name Link = js ''link''"
| "tag_name Description = js ''description''"
| "tag_name Subtitle = js ''subtitle''"
| "tag_name Published = js ''published''"
| "tag_name Updated = js ''updated''"
| "tag_name Summary = js ''summary''"
| "tag_name Content = js ''content''"
| "tag_name PubDate = js ''pubDate''"
| "tag_name DcDate = js ''dc:date''"
| "tag_name Guid = js ''guid''"
| "tag_name ContentEncoded = js ''content:encoded''"

definition trim_group :: "jstring list \<Rightarrow> error + jstring" where
  "trim_group m =
     (case group m 1 of
        None \<Rightarrow> Inl (TypeError (js ''Cannot read properties of undefined (reading trim)''))
      | Some g \<Rightarrow> Inr (trim g))"

definition extractTag :: "jstring \<Rightarrow> tag \<Rightarrow> error + jstring option" where
  "extractTag xml tagName =
     (case regex_exec (cdata_at (tag_name tagName)) xml of
        Some cdataMatch \<Rightarrow>
          bindE (trim_group cdataMatch) (\<lambda>g. Inr (Some (decodeHtmlEntities g)))
      | None \<Rightarrow>
          (case regex_exec (plain_at (tag_name tagName)) xml of
             Some m \<Rightarrow> bindE (trim_group m) (\<lambda>g. Inr (Some (decodeHtmlEntities g)))
           | None \<Rightarrow> Inr None))"

text \<open>
  \<^verbatim>\<open>
  function extractAtomLink(entry) {
      const linkMatch = entry.match(/<link[^>]*href=["']([^"']+)["'][^>]*>/i);
      if (linkMatch) {
          return linkMatch[1];
      }
      return extractTag(entry, 'link');
  }
  \<close>
\<close>

definition extractAtomLink :: "jstring \<Rightarrow> error + jstring option" where
  "extractAtomLink entry =
     (case regex_exec atom_link_at entry of
        Some linkMatch \<Rightarrow> Inr (group linkMatch 1)
      | None \<Rightarrow> extractTag entry Link)"

record feed_info =
  feed_url :: jstring
  feed_title :: jstring
  feed_link :: jstring
  feed_description :: jstring

record feed_item =
  item_title :: jstring
  pubDate :: jstring
  item_link :: jstring
  item_description :: jstring
  content :: jstring

record feed_document =
  doc_status :: jstring
  feed :: feed_info
  items :: "feed_item list"

text \<open>The object built for one \<^verbatim>\<open>entry\<close> (Atom) and for one \<^verbatim>\<open>item\<close> (RSS/RDF).\<close>

definition parseAtomEntry :: "jstring \<Rightarrow> error + feed_item" where
  "parseAtomEntry entry =
     bindE (extractTag entry Title) (\<lambda>t.
     bindE (bindE (extractTag entry Published)
              (\<lambda>a. js_or a (extractTag entry Updated))) (\<lambda>d.
     bindE (extractAtomLink entry) (\<lambda>l.
     bindE (bindE (extractTag entry Summary)
              (\<lambda>a. js_or a (extractTag entry Content))) (\<lambda>s.
     bindE (extractTag entry Content) (\<lambda>c.
     Inr \<lparr> item_title = or_str t [], pubDate = or_str d [], item_link = or_str l [],
           item_description = or_str s [], content = or_str c [] \<rparr>)))))"

definition parseRssItem :: "jstring \<Rightarrow> error + feed_item" where
  "parseRssItem item =
     bindE (extractTag item Title) (\<lambda>t.
     bindE (bindE (extractTag item PubDate)
              (\<lambda>a. js_or a (extractTag item DcDate))) (\<lambda>d.
     bindE (bindE (extractTag item Link)
              (\<lambda>a. js_or a (extractTag item Guid))) (\<lambda>l.
     bindE (extractTag item Description) (\<lambda>s.
     bindE (bindE (extractTag item ContentEncoded)
              (\<lambda>a. js_or a (extractTag item Content))) (\<lambda>c.
     Inr \<lparr> item_title = or_str t [], pubDate = or_str d [], item_link = or_str l [],
           item_description = or_str s [], content = or_str c [] \<rparr>)))))"

text \<open>
  The loop \<^verbatim>\<open>for (const e of elements.slice(0, 20)) { ...; if (item.title || item.link)
  result.items.push(item); }\<close>, with \<open>acc\<close> the items pushed so far; \<open>retained\<close> is the
  condition of the \<^verbatim>\<open>if\<close>.
\<close>

definition retained :: "feed_item \<Rightarrow> bool" where
  "retained item = (item_title item \<noteq> [] \<or> item_link item \<noteq> [])"

fun push_items :: "(jstring \<Rightarrow> error + feed_item) \<Rightarrow> jstring list \<Rightarrow> feed_item list
    \<Rightarrow> error + feed_item list" where
  "push_items parse [] acc = Inr acc"
| "push_items parse (e # es) acc =
     bindE (parse e) (\<lambda>item. push_items parse es (if retained item then acc @ [item] else acc))"

definition atom_ns :: jstring where
  \<open>atom_ns = js ''xmlns="http://www.w3.org/2005/Atom"''\<close>

definition isAtom :: "jstring \<Rightarrow> bool" where
  "isAtom xml = (str_includes xml (js ''<feed'') \<and> str_includes xml atom_ns)"

definition atomItems :: "jstring \<Rightarrow> error + feed_item list" where
  "atomItems xml =
     push_items parseAtomEntry (take 20 (regex_match_all (element_at (js ''entry'')) 0 xml)) []"

definition rssItems :: "jstring \<Rightarrow> error + feed_item list" where
  "rssItems xml =
     push_items parseRssItem (take 20 (regex_match_all (element_at (js ''item'')) 0 xml)) []"

text \<open>
  \<^verbatim>\<open>
  function parseRssToJson(xml, feedUrl) {
      const result = { status: 'ok', feed: { url: feedUrl, title: '', link: '', description: '' }, items: [] };
      result.feed.title = extractTag(xml, 'title') || '';
      result.feed.link = extractTag(xml, 'link') || feedUrl;
      result.feed.description = extractTag(xml, 'description') || extractTag(xml, 'subtitle') || '';
      const isAtom = xml.includes('<feed') && xml.includes('xmlns="http://www.w3.org/2005/Atom"');
      if (isAtom) { ... entries ... } else { ... items ... }
      return result;
  }
  \<close>
\<close>

definition parseRssToJson :: "jstring \<Rightarrow> jstring \<Rightarrow> error + feed_document" where
  "parseRssToJson xml feedUrl =
     bindE (extractTag xml Title) (\<lambda>t.
     bindE (extractTag xml Link) (\<lambda>l.
     bindE (bindE (extractTag xml Description)
              (\<lambda>a. js_or a (extractTag xml Subtitle))) (\<lambda>d.
     bindE (if isAtom xml then atomItems xml else rssItems xml) (\<lambda>its.
     Inr \<lparr> doc_status = js ''ok'',
           feed = \<lparr> feed_url = feedUrl, feed_title = or_str t [], feed_link = or_str l feedUrl,
                    feed_description = or_str d [] \<rparr>,
           items = its \<rparr>))))"

text \<open>
  \<^verbatim>\<open>
  function isRssFeed(contentType, body) {
      if (contentType.includes('xml') || contentType.includes('rss') || contentType.includes('atom')) return true;
      if (body && (body.includes('<rss') || body.includes('<feed') || body.includes('<channel'))) return true;
      return false;
  }
  \<close>
\<close>

definition isRssFeed :: "jstring \<Rightarrow> jstring \<Rightarrow> bool" where
  "isRssFeed contentType body =
     (if str_includes contentType (js ''xml'') \<or> str_includes contentType (js ''rss'')
         \<or> str_includes contentType (js ''atom'') then True
      else if body \<noteq> [] \<and> (str_includes body (js ''<rss'') \<or> str_includes body (js ''<feed'')
                \<or> str_includes body (js ''<channel'')) then True
      else False)"

section \<open>Cache policy\<close>

text \<open>
  \<^verbatim>\<open>
  function getCacheTtl(contentType, host) {
      if (contentType.includes('xml') || contentType.includes('rss')) return 300;
      if (host.includes('gdelt')) return 180;
      if (host.includes('coingecko')) return 60;
      if (host.includes('usgs')) return 300;
      if (host.includes('fred')) return 3600;
      return 120;
  }
  \<close>
\<close>

definition getCacheTtl :: "jstring \<Rightarrow> jstring \<Rightarrow> nat" where
  "getCacheTtl contentType host =
     (if str_includes contentType (js ''xml'') \<or> str_includes contentType (js ''rss'') then 300
      else if str_includes host (js ''gdelt'') then 180
      else if str_includes host (js ''coingecko'') then 60
      else if str_includes host (js ''usgs'') then 300
      else if str_includes host (js ''fred'') then 3600
      else 120)"

text \<open>
  The reference policy, written from the specification's ordered rule table
  ("ordered rule evaluation, first match wins", default 120): a list of
  (condition, seconds) rules, searched from the front.
\<close>

definition ttl_rules :: "((jstring \<Rightarrow> jstring \<Rightarrow> bool) \<times> nat) list" where
  "ttl_rules =
     [(\<lambda>ct h. str_includes ct (js ''xml'') \<or> str_includes ct (js ''rss''), 300),
      (\<lambda>ct h. str_includes h (js ''gdelt''), 180),
      (\<lambda>ct h. str_includes h (js ''coingecko''), 60),
      (\<lambda>ct h. str_includes h (js ''usgs''), 300),
      (\<lambda>ct h. str_includes h (js ''fred''), 3600)]"

definition ttlFor_spec :: "jstring \<Rightarrow> jstring \<Rightarrow> nat" where
  "ttlFor_spec contentType host =
     (case find (\<lambda>rule. fst rule contentType host) ttl_rules of
        Some rule \<Rightarrow> snd rule
      | None \<Rightarrow> 120)"

section \<open>Origin allow-list\<close>

text \<open>The constant \<^verbatim>\<open>ALLOWED_ORIGINS\<close> of the worker, in source order.\<close>

definition ALLOWED_ORIGINS :: "jstring list" where
  "ALLOWED_ORIGINS = map js
    [''api.rss2json.com'', ''api.gdeltproject.org'', ''api.coingecko.com'',
      ''fred.stlouisfed.org'', ''earthquake.usgs.gov'', ''feeds.bbci.co.uk'',
      ''feeds.npr.org'', ''rss.nytimes.com'', ''rss.cnn.com'', ''www.theguardian.com'',
      ''news.google.com'', ''news.ycombinator.com'', ''hnrss.org'',
      ''feeds.arstechnica.com'', ''www.theverge.com'', ''www.technologyreview.com'',
      ''feeds.feedburner.com'', ''arxiv.org'', ''rss.arxiv.org'', ''www.cnbc.com'',
      ''feeds.marketwatch.com'', ''finance.yahoo.com'', ''www.ft.com'',
      ''www.whitehouse.gov'', ''www.federalreserve.gov'', ''www.sec.gov'',
      ''www.defense.gov'', ''www.cisa.gov'', ''www.csis.org'', ''www.brookings.edu'',
      ''www.cfr.org'', ''www.defenseone.com'', ''warontherocks.com'',
      ''breakingdefense.com'', ''www.thedrive.com'', ''thediplomat.com'',
      ''www.al-monitor.com'', ''www.bellingcat.com'', ''krebsonsecurity.com'',
      ''openai.com'', ''venturebeat.com'', ''blog.google'', ''news.mit.edu'',
      ''huggingface.co'', ''deepmind.google'']"

text \<open>
  \<^verbatim>\<open>new URL(text)\<close> is the URL parser of the runtime, not code of the worker: it is a
  parameter of the model, \<open>None\<close> when the constructor throws. Of a parsed URL the worker
  reads the host name.
\<close>

record parsed_url =
  hostname :: jstring

type_synonym url_parser = "jstring \<Rightarrow> parsed_url option"

text \<open>
  \<^verbatim>\<open>
  function isAllowedOrigin(targetUrl) {
      try {
          const url = new URL(targetUrl);
          return ALLOWED_ORIGINS.some(allowed => url.hostname.includes(allowed));
      } catch {
          return false;
      }
  }
  \<close>
\<close>

definition isAllowedOrigin :: "url_parser \<Rightarrow> jstring \<Rightarrow> bool" where
  "isAllowedOrigin new_URL targetUrl =
     (case new_URL targetUrl of
        None \<Rightarrow> False
      | Some url \<Rightarrow> list_ex (\<lambda>allowed. str_includes (hostname url) allowed) ALLOWED_ORIGINS)"

section \<open>Responses and the CORS wrapper\<close>

text \<open>
  A body is absent, a text, or the text \<^verbatim>\<open>JSON.stringify(v)\<close> of a value \<open>v\<close>; the
  serialiser belongs to the runtime and the value stands for its output. Header names are
  literals of the worker, each with one spelling, so a header list keyed by the name as
  written behaves as the \<^verbatim>\<open>Headers\<close> object does; \<^verbatim>\<open>headers.set\<close> replaces the value of
  a name that is present and appends otherwise.
\<close>

datatype json = JString jstring | JArray "json list" | JObject "(string \<times> json) list"

datatype body = NoBody | Text jstring | Json json

type_synonym headers = "(string \<times> jstring) list"

text \<open>
  The status text of a response is \<open>None\<close> when the response was built without one: it
  then reads as whatever the runtime gives the status by default (the empty text in the
  Fetch standard, the reason phrase in some runtimes), and handing it on to a new response
  with the same status, as \<^verbatim>\<open>addCorsHeaders\<close> does, gives the same text again.
\<close>

record response =
  status :: nat
  statusText :: "jstring option"
  headers :: headers
  body :: body

text \<open>
  \<^verbatim>\<open>new Response(body, {status})\<close> throws for a status outside 200 to 599 (RangeError) and,
  when a body is given, for a null-body status (TypeError). Every status the worker writes
  as a literal passes; the one status it takes from the origin may not.
\<close>

definition response_refused :: "nat \<Rightarrow> body \<Rightarrow> bool" where
  "response_refused st b =
     (st < 200 \<or> 599 < st \<or> (b \<noteq> NoBody \<and> (st = 204 \<or> st = 205 \<or> st = 304)))"

definition header_get :: "headers \<Rightarrow> string \<Rightarrow> jstring option" where
  "header_get hs name = map_of hs name"

definition header_set :: "string \<Rightarrow> jstring \<Rightarrow> headers \<Rightarrow> headers" where
  "header_set name v hs = AList.update name v hs"

text \<open>
  \<^verbatim>\<open>
  function addCorsHeaders(response, origin) {
      const headers = new Headers(response.headers);
      headers.set('Access-Control-Allow-Origin', origin || '*');
      headers.set('Access-Control-Allow-Methods', 'GET, HEAD, OPTIONS');
      headers.set('Access-Control-Allow-Headers', 'Content-Type, Accept');
      headers.set('Access-Control-Max-Age', '86400');
      return new Response(response.body, { status: response.status, statusText: response.statusText, headers });
  }
  \<close>
\<close>

definition addCorsHeaders :: "response \<Rightarrow> jstring \<Rightarrow> response" where
  "addCorsHeaders response origin =
     (let h1 = header_set ''Access-Control-Allow-Origin'' (or_str (Some origin) (js ''*''))
                 (headers response);
          h2 = header_set ''Access-Control-Allow-Methods'' (js ''GET, HEAD, OPTIONS'') h1;
          h3 = header_set ''Access-Control-Allow-Headers'' (js ''Content-Type, Accept'') h2;
          h4 = header_set ''Access-Control-Max-Age'' (js ''86400'') h3
      in \<lparr> status = status response, statusText = statusText response, headers = h4,
            body = body response \<rparr>)"

text \<open>The four names of the CORS header set.\<close>

definition cors_header_names :: "string list" where
  "cors_header_names =
     [''Access-Control-Allow-Origin'', ''Access-Control-Allow-Methods'',
      ''Access-Control-Allow-Headers'', ''Access-Control-Max-Age'']"

definition has_cors :: "response \<Rightarrow> bool" where
  "has_cors r = list_all (\<lambda>name. header_get (headers r) name \<noteq> None) cors_header_names"

section \<open>Request orchestrator\<close>

text \<open>
  What the handler reads of a request: the method, the query parameters \<^verbatim>\<open>url\<close> and
  \<^verbatim>\<open>format\<close> (\<^verbatim>\<open>searchParams.get\<close>, \<open>None\<close> for \<^verbatim>\<open>null\<close>) and the \<^verbatim>\<open>Origin\<close> header.
\<close>

record request =
  req_method :: jstring
  url_param :: "jstring option"
  format_param :: "jstring option"
  origin_header :: "jstring option"

text \<open>
  The origin server as the worker sees it through \<^verbatim>\<open>fetch(targetUrl, {..., cf: {cacheTtl}})\<close>:
  the call throws, or returns a response whose body \<^verbatim>\<open>text()\<close> yields or throws.
\<close>

record upstream_response =
  up_status :: nat
  up_statusText :: jstring
  up_contentType :: "jstring option"
  up_text :: "error + jstring"

text \<open>
  What the runtime supplies: the URL parser and the error its constructor throws for a
  text it rejects; \<^verbatim>\<open>new Request(url, request)\<close>, which gives the URL of the key request
  or throws (it refuses more than the URL parser does, a URL with credentials for one);
  the error \<^verbatim>\<open>new Response\<close> throws for a status it refuses; the origin; the clock.
\<close>

record env =
  new_URL :: url_parser
  url_error :: "jstring \<Rightarrow> error"
  new_Request :: "jstring \<Rightarrow> error + jstring"
  response_error :: "nat \<Rightarrow> error"
  upstream :: "jstring \<Rightarrow> nat \<Rightarrow> error + upstream_response"
  now_iso :: jstring

text \<open>
  The shared cache (\<^verbatim>\<open>caches.default\<close>) is a store keyed by the URL of the key request.
  The outcome of one request: the response returned (or the exception that escapes the
  handler), the cache once the deferred write of \<^verbatim>\<open>ctx.waitUntil\<close> has landed, and the
  origin fetches issued, each with its \<^verbatim>\<open>cf.cacheTtl\<close>.
\<close>

type_synonym cache = "jstring \<Rightarrow> response option"

record outcome =
  result :: "error + response"
  cache_after :: cache
  fetched :: "(jstring \<times> nat) list"

definition json_of_item :: "feed_item \<Rightarrow> json" where
  "json_of_item i =
     JObject [(''title'', JString (item_title i)), (''pubDate'', JString (pubDate i)),
              (''link'', JString (item_link i)), (''description'', JString (item_description i)),
              (''content'', JString (content i))]"

definition json_of_document :: "feed_document \<Rightarrow> json" where
  "json_of_document d =
     JObject [(''status'', JString (doc_status d)),
              (''feed'', JObject [(''url'', JString (feed_url (feed d))),
                                  (''title'', JString (feed_title (feed d))),
                                  (''link'', JString (feed_link (feed d))),
                                  (''description'', JString (feed_description (feed d)))]),
              (''items'', JArray (map json_of_item (items d)))]"

text \<open>The responses of the early exits, as the handler builds them.\<close>

definition preflight_response :: "jstring \<Rightarrow> response" where
  "preflight_response origin =
     \<lparr> status = 200, statusText = None,
       headers = [(''Access-Control-Allow-Origin'', origin),
                  (''Access-Control-Allow-Methods'', js ''GET, HEAD, OPTIONS''),
                  (''Access-Control-Allow-Headers'', js ''Content-Type, Accept''),
                  (''Access-Control-Max-Age'', js ''86400'')],
       body = NoBody \<rparr>"

text \<open>
  \<^verbatim>\<open>new Response('Method not allowed', { status: 405 })\<close>: for a text body and no
  \<^verbatim>\<open>Content-Type\<close> among the headers given, the constructor sets the text type.
\<close>

definition method_not_allowed :: response where
  "method_not_allowed =
     \<lparr> status = 405, statusText = None,
       headers = [(''Content-Type'', js ''text/plain;charset=UTF-8'')],
       body = Text (js ''Method not allowed'') \<rparr>"

definition missing_url :: response where
  "missing_url =
     \<lparr> status = 400, statusText = None, headers = [(''Content-Type'', js ''application/json'')],
       body = Json (JObject
         [(''error'', JString (js ''Missing url parameter'')),
          (''usage'', JString (js ''Add ?url=<encoded-url>&format=json to fetch and parse RSS feeds''))]) \<rparr>"

definition domain_not_allowed :: response where
  "domain_not_allowed =
     \<lparr> status = 403, statusText = None, headers = [(''Content-Type'', js ''application/json'')],
       body = Json (JObject
         [(''error'', JString (js ''Domain not allowed'')),
          (''allowed'', JArray (map JString ALLOWED_ORIGINS))]) \<rparr>"

text \<open>The \<^verbatim>\<open>catch (error)\<close> of the origin fetch: 502.\<close>

definition proxy_error :: "error \<Rightarrow> jstring \<Rightarrow> jstring \<Rightarrow> response" where
  "proxy_error e targetUrl origin =
     addCorsHeaders
       \<lparr> status = 502, statusText = None, headers = [(''Content-Type'', js ''application/json'')],
         body = Json (JObject
           [(''error'', JString (js ''Proxy error'')),
            (''message'', JString (message e)),
            (''url'', JString targetUrl)]) \<rparr> origin"

definition upstream_error_body :: "upstream_response \<Rightarrow> jstring \<Rightarrow> body" where
  "upstream_error_body r targetUrl =
     Json (JObject
       [(''error'', JString (js ''Upstream error: '' @ decimal (up_status r) @ js '' ''
                               @ up_statusText r)),
        (''url'', JString targetUrl)])"

definition upstream_error :: "upstream_response \<Rightarrow> jstring \<Rightarrow> jstring \<Rightarrow> response" where
  "upstream_error r targetUrl origin =
     addCorsHeaders
       \<lparr> status = up_status r, statusText = None,
         headers = [(''Content-Type'', js ''application/json'')],
         body = upstream_error_body r targetUrl \<rparr> origin"

definition parse_failure :: "error \<Rightarrow> jstring \<Rightarrow> response" where
  "parse_failure parseError origin =
     addCorsHeaders
       \<lparr> status = 500, statusText = None, headers = [(''Content-Type'', js ''application/json'')],
         body = Json (JObject
           [(''status'', JString (js ''error'')),
            (''error'', JString (js ''Failed to parse RSS feed'')),
            (''message'', JString (message parseError))]) \<rparr> origin"

text \<open>
  The end of the miss path: the 200 response, and the deferred cache write when
  \<^verbatim>\<open>cacheTtl > 0\<close>.
\<close>

definition finish_miss :: "env \<Rightarrow> cache \<Rightarrow> jstring \<Rightarrow> jstring \<Rightarrow> nat \<Rightarrow> body \<Rightarrow> jstring
    \<Rightarrow> (jstring \<times> nat) list \<Rightarrow> outcome" where
  "finish_miss e c cacheKey origin cacheTtl finalBody finalContentType reqs =
     (let finalResponse =
            \<lparr> status = 200, statusText = None,
              headers = [(''Content-Type'', finalContentType), (''X-Cache'', js ''MISS''),
                         (''X-Cache-TTL'', decimal cacheTtl)],
              body = finalBody \<rparr>;
          cacheHeaders =
            header_set ''X-Cache-Time'' (now_iso e)
              (header_set ''Cache-Control'' (js ''public, max-age='' @ decimal cacheTtl)
                 (headers finalResponse));
          stored = \<lparr> status = 200, statusText = None, headers = cacheHeaders, body = finalBody \<rparr>
      in \<lparr> result = Inr (addCorsHeaders finalResponse origin),
            cache_after = (if 0 < cacheTtl then c(cacheKey \<mapsto> stored) else c),
            fetched = reqs \<rparr>)"

text \<open>
  The \<^verbatim>\<open>try\<close> block of the handler: fetch from the origin, pass a non-2xx status
  through, normalise when JSON was asked for and the content is a feed, store, respond.
  Whatever is thrown inside it, by \<^verbatim>\<open>new URL\<close>, by the origin fetch, by \<^verbatim>\<open>text()\<close> or by
  \<^verbatim>\<open>new Response\<close> for the status of the origin, ends in the \<^verbatim>\<open>catch\<close>.
\<close>

definition fetch_origin :: "env \<Rightarrow> cache \<Rightarrow> jstring \<Rightarrow> bool \<Rightarrow> jstring \<Rightarrow> jstring \<Rightarrow> outcome" where
  "fetch_origin e c targetUrl wantJson origin cacheKey =
     (case new_URL e targetUrl of
        None \<Rightarrow>
          \<lparr> result = Inr (proxy_error (url_error e targetUrl) targetUrl origin),
            cache_after = c, fetched = [] \<rparr>
      | Some targetUrlObj \<Rightarrow>
          (let cfTtl = getCacheTtl [] (hostname targetUrlObj); reqs = [(targetUrl, cfTtl)]
           in case upstream e targetUrl cfTtl of
                Inl err \<Rightarrow>
                  \<lparr> result = Inr (proxy_error err targetUrl origin), cache_after = c,
                    fetched = reqs \<rparr>
              | Inr r \<Rightarrow>
                  if \<not> (200 \<le> up_status r \<and> up_status r \<le> 299) then
                    (if response_refused (up_status r) (upstream_error_body r targetUrl) then
                       \<lparr> result = Inr (proxy_error (response_error e (up_status r)) targetUrl
                                          origin),
                         cache_after = c, fetched = reqs \<rparr>
                     else
                       \<lparr> result = Inr (upstream_error r targetUrl origin), cache_after = c,
                         fetched = reqs \<rparr>)
                  else
                    (let contentType = or_str (up_contentType r) []
                     in case up_text r of
                          Inl err \<Rightarrow>
                            \<lparr> result = Inr (proxy_error err targetUrl origin), cache_after = c,
                              fetched = reqs \<rparr>
                        | Inr text \<Rightarrow>
                            (let cacheTtl = getCacheTtl contentType (hostname targetUrlObj)
                             in if wantJson \<and> isRssFeed contentType text then
                                  (case parseRssToJson text targetUrl of
                                     Inl parseError \<Rightarrow>
                                       \<lparr> result = Inr (parse_failure parseError origin),
                                         cache_after = c, fetched = reqs \<rparr>
                                   | Inr parsed \<Rightarrow>
                                       finish_miss e c cacheKey origin cacheTtl
                                         (Json (json_of_document parsed))
                                         (js ''application/json'') reqs)
                                else finish_miss e c cacheKey origin cacheTtl (Text text)
                                       contentType reqs))))"

text \<open>
  \<^verbatim>\<open>const cacheKeyUrl = wantJson ? `${targetUrl}__json` : targetUrl;\<close>
\<close>

definition cacheKeyUrl :: "jstring \<Rightarrow> bool \<Rightarrow> jstring" where
  "cacheKeyUrl targetUrl wantJson = (if wantJson then targetUrl @ js ''__json'' else targetUrl)"

text \<open>The response of a cache hit.\<close>

definition cache_hit :: "response \<Rightarrow> jstring \<Rightarrow> response" where
  "cache_hit cachedResponse origin =
     (let r = addCorsHeaders cachedResponse origin;
          h1 = header_set ''X-Cache'' (js ''HIT'') (headers r);
          h2 = header_set ''X-Cache-Time''
                 (or_str (header_get (headers cachedResponse) ''X-Cache-Time'') (js ''unknown'')) h1
      in r \<lparr> headers := h2 \<rparr>)"

text \<open>
  The handler \<^verbatim>\<open>fetch(request, env, ctx)\<close>. \<^verbatim>\<open>new Request(cacheKeyUrl, request)\<close> stands
  outside the \<^verbatim>\<open>try\<close>: what it throws escapes the handler. The cache holds what earlier
  requests stored, keyed by the URL of the key request.
\<close>

definition fetch :: "env \<Rightarrow> cache \<Rightarrow> request \<Rightarrow> outcome" where
  "fetch e c request =
     (let origin = or_str (origin_header request) (js ''*'')
      in if req_method request = js ''OPTIONS'' then
           \<lparr> result = Inr (preflight_response origin), cache_after = c, fetched = [] \<rparr>
         else if req_method request \<noteq> js ''GET'' then
           \<lparr> result = Inr method_not_allowed, cache_after = c, fetched = [] \<rparr>
         else
           (let wantJson = (format_param request = Some (js ''json''))
            in if \<not> truthy (url_param request) then
                 \<lparr> result = Inr missing_url, cache_after = c, fetched = [] \<rparr>
               else
                 (let targetUrl = or_str (url_param request) []
                  in if \<not> isAllowedOrigin (new_URL e) targetUrl then
                       \<lparr> result = Inr domain_not_allowed, cache_after = c, fetched = [] \<rparr>
                     else
                       (case new_Request e (cacheKeyUrl targetUrl wantJson) of
                          Inl err \<Rightarrow> \<lparr> result = Inl err, cache_after = c, fetched = [] \<rparr>
                        | Inr cacheKey \<Rightarrow>
                            (case c cacheKey of
                               Some cachedResponse \<Rightarrow>
                                 \<lparr> result = Inr (cache_hit cachedResponse origin),
                                   cache_after = c, fetched = [] \<rparr>
                             | None \<Rightarrow>
                                 fetch_origin e c targetUrl wantJson origin cacheKey)))))"

section \<open>Example inputs\<close>

text \<open>
  Concrete inputs for the closed statements below: a URL parser that knows three URLs
  (and rejects every other text), an origin that serves one small RSS feed, and the
  empty cache.
\<close>

definition example_feed :: jstring where
  "example_feed =
     js ''<rss><channel><title>News</title><item><title>A</title></item><item><title>B</title></item></channel></rss>''"

definition example_parser :: url_parser where
  "example_parser s =
     (if s = js ''https://feeds.bbci.co.uk/news/rss.xml''
         \<or> s = js ''https://feeds.bbci.co.uk/news/rss.xml__json''
      then Some \<lparr> hostname = js ''feeds.bbci.co.uk'' \<rparr>
      else if s = js ''https://evil.example.com/feed''
      then Some \<lparr> hostname = js ''evil.example.com'' \<rparr>
      else None)"

definition example_upstream :: "jstring \<Rightarrow> nat \<Rightarrow> error + upstream_response" where
  "example_upstream u ttl =
     (if u = js ''https://feeds.bbci.co.uk/news/rss.xml''
      then Inr \<lparr> up_status = 200, up_statusText = js ''OK'',
                 up_contentType = Some (js ''application/rss+xml''),
                 up_text = Inr example_feed \<rparr>
      else Inl (TypeError (js ''fetch failed'')))"

definition example_request :: "jstring \<Rightarrow> error + jstring" where
  "example_request s =
     (case example_parser s of
        None \<Rightarrow> Inl (TypeError (js ''Invalid URL''))
      | Some url \<Rightarrow> Inr s)"

definition example_env :: env where
  "example_env =
     \<lparr> new_URL = example_parser,
       url_error = (\<lambda>s. TypeError (js ''Invalid URL'')),
       new_Request = example_request,
       response_error = (\<lambda>st. OtherError (js ''Invalid response status'')),
       upstream = example_upstream,
       now_iso = js ''2026-01-01T00:00:00.000Z'' \<rparr>"

definition empty_cache :: cache where
  "empty_cache = (\<lambda>key. None)"

text \<open>
  A feed of 35 items, each \<^verbatim>\<open><item><title>T</title></item>\<close> with the titles \<open>T1\<close> to
  \<open>T35\<close>.
\<close>

definition simple_item :: "jstring \<Rightarrow> jstring" where
  "simple_item t = js ''<item><title>'' @ t @ js ''</title></item>''"

definition titles35 :: "jstring list" where
  "titles35 = map (\<lambda>n. js ''T'' @ decimal n) [1..<36]"

definition feed35 :: jstring where
  "feed35 = js ''<rss><channel>'' @ concat (map simple_item titles35) @ js ''</channel></rss>''"

text \<open>
  An Atom document that also has a \<^verbatim>\<open><channel>\<close> text and an \<^verbatim>\<open><item>\<close> element.
\<close>

definition atom_doc :: jstring where
  "atom_doc = [] @ js ''<feed'' @ js '' '' @ atom_ns
     @ js ''><title>F</title><!-- <channel> --><item><title>R</title></item><entry><title>E</title><link href='http://e'/></entry></feed>''"

text \<open>
  A feed whose three items have a title only, a description only and a link only.
\<close>

definition mixed_feed :: jstring where
  "mixed_feed =
     js ''<rss><item><title>A</title></item><item><description>x</description></item><item><link>http://b</link></item></rss>''"


definition untitled_feed :: jstring where
  "untitled_feed = js ''<rss><channel><item><title>T1</title></item></channel></rss>''"

section \<open>Facts about strings\<close>

lemma includes_iff: "str_includes t n \<longleftrightarrow> (\<exists>p s. t = p @ n @ s)"
proof (induction t)
  case Nil
  then show ?case by auto
next
  case (Cons c cs)
  show ?case
  proof
    assume "str_includes (c # cs) n"
    then consider "prefix n (c # cs)" | "str_includes cs n" by auto
    then show "\<exists>p s. c # cs = p @ n @ s"
    proof cases
      case 1
      then obtain s where "c # cs = n @ s" by (auto simp: prefix_def)
      then have "c # cs = [] @ n @ s" by simp
      then show ?thesis by blast
    next
      case 2
      with Cons.IH obtain p s where "cs = p @ n @ s" by blast
      then have "c # cs = (c # p) @ n @ s" by simp
      then show ?thesis by blast
    qed
  next
    assume "\<exists>p s. c # cs = p @ n @ s"
    then obtain p s where eq: "c # cs = p @ n @ s" by blast
    show "str_includes (c # cs) n"
    proof (cases p)
      case Nil
      with eq have "prefix n (c # cs)" by (simp add: prefix_def)
      then show ?thesis by simp
    next
      case (Cons a p')
      with eq have "cs = p' @ n @ s" by simp
      with Cons.IH have "str_includes cs n" by blast
      then show ?thesis by simp
    qed
  qed
qed

section \<open>Facts about the normalizer\<close>

lemma regex_exec_Some:
  "regex_exec rx t = Some m \<Longrightarrow> \<exists>s r. rx s = Some r \<and> m = match_array s r"
proof (induction t)
  case Nil
  then show ?case by auto
next
  case (Cons c cs)
  show ?case
  proof (cases "rx (c # cs)")
    case None
    with Cons show ?thesis by simp
  next
    case (Some r)
    with Cons.prems have "m = match_array (c # cs) r" by simp
    with Some show ?thesis by blast
  qed
qed

lemma cdata_at_group: "cdata_at tag s = Some r \<Longrightarrow> \<exists>g. fst r = [g]"
  by (auto simp add: cdata_at_def split: option.splits)

lemma plain_at_group: "plain_at tag s = Some r \<Longrightarrow> \<exists>g. fst r = [g]"
  by (auto simp add: plain_at_def split: option.splits)

lemma trim_group_match_array: "fst r = [g] \<Longrightarrow> trim_group (match_array s r) = Inr (trim g)"
  by (simp add: trim_group_def group_def match_array_def)

lemma nth_match_array: "fst r = [g] \<Longrightarrow> match_array s r ! Suc 0 = g"
  by (simp add: match_array_def)

lemma trim_group_cdata:
  assumes "regex_exec (cdata_at tag) xml = Some m"
  shows "trim_group m = Inr (trim (m ! 1))"
proof -
  from regex_exec_Some [OF assms] obtain s r where r: "cdata_at tag s = Some r" "m = match_array s r"
    by blast
  from cdata_at_group [OF r(1)] obtain g where "fst r = [g]" by blast
  with r(2) show ?thesis by (simp add: trim_group_match_array nth_match_array)
qed

lemma trim_group_plain:
  assumes "regex_exec (plain_at tag) xml = Some m"
  shows "trim_group m = Inr (trim (m ! 1))"
proof -
  from regex_exec_Some [OF assms] obtain s r where r: "plain_at tag s = Some r" "m = match_array s r"
    by blast
  from plain_at_group [OF r(1)] obtain g where "fst r = [g]" by blast
  with r(2) show ?thesis by (simp add: trim_group_match_array nth_match_array)
qed

lemma extractTag_eq:
  "extractTag xml tag =
     Inr (case regex_exec (cdata_at (tag_name tag)) xml of
            Some m \<Rightarrow> Some (decodeHtmlEntities (trim (m ! 1)))
          | None \<Rightarrow>
              (case regex_exec (plain_at (tag_name tag)) xml of
                 Some m \<Rightarrow> Some (decodeHtmlEntities (trim (m ! 1)))
               | None \<Rightarrow> None))"
  by (simp add: extractTag_def trim_group_cdata trim_group_plain split: option.splits)

lemma extractTag_Inr: "\<exists>v. extractTag xml tag = Inr v"
  by (simp add: extractTag_eq)

lemma js_or_Inr: "\<exists>v. e = Inr v \<Longrightarrow> \<exists>v. js_or a e = Inr v"
  by (auto simp add: js_or_def)

lemma extractAtomLink_Inr: "\<exists>v. extractAtomLink entry = Inr v"
  by (simp add: extractAtomLink_def extractTag_Inr split: option.splits)

lemma bindE_Inr:
  "\<exists>v. m = Inr v \<Longrightarrow> (\<And>v. \<exists>w. f v = Inr w) \<Longrightarrow> \<exists>w. bindE m f = Inr w"
  by auto

lemma tag_or_tag_Inr:
  "\<exists>v. bindE (extractTag x t1) (\<lambda>a. js_or a (extractTag x t2)) = Inr v"
  by (intro bindE_Inr js_or_Inr extractTag_Inr)

lemma parseRssItem_Inr: "\<exists>i. parseRssItem item = Inr i"
  unfolding parseRssItem_def
  by (intro bindE_Inr tag_or_tag_Inr extractTag_Inr) simp

lemma parseAtomEntry_Inr: "\<exists>i. parseAtomEntry entry = Inr i"
  unfolding parseAtomEntry_def
  by (intro bindE_Inr tag_or_tag_Inr extractTag_Inr extractAtomLink_Inr) simp

lemma push_items_eq:
  assumes total: "\<And>el. \<exists>i. parse el = Inr i"
  shows "push_items parse els acc = Inr (acc @ filter retained (map (\<lambda>el. projr (parse el)) els))"
proof (induction els arbitrary: acc)
  case Nil
  show ?case by simp
next
  case (Cons el els)
  from total obtain i where i: "parse el = Inr i" by blast
  show ?case by (simp add: i Cons.IH)
qed

lemma atomItems_eq:
  "atomItems xml = Inr (filter retained (map (\<lambda>el. projr (parseAtomEntry el))
       (take 20 (regex_match_all (element_at (js ''entry'')) 0 xml))))"
  by (simp add: atomItems_def push_items_eq [OF parseAtomEntry_Inr])

lemma rssItems_eq:
  "rssItems xml = Inr (filter retained (map (\<lambda>el. projr (parseRssItem el))
       (take 20 (regex_match_all (element_at (js ''item'')) 0 xml))))"
  by (simp add: rssItems_def push_items_eq [OF parseRssItem_Inr])

lemma parseRssToJson_Inr: "\<exists>doc. parseRssToJson xml url = Inr doc"
  unfolding parseRssToJson_def
  by (intro bindE_Inr tag_or_tag_Inr extractTag_Inr) (simp_all add: atomItems_eq rssItems_eq)

lemma parseRssToJson_items:
  "parseRssToJson xml url = Inr doc \<Longrightarrow>
   Inr (items doc) = (if isAtom xml then atomItems xml else rssItems xml)"
proof -
  assume a: "parseRssToJson xml url = Inr doc"
  obtain t where t: "extractTag xml Title = Inr t" using extractTag_Inr by blast
  obtain l where l: "extractTag xml Link = Inr l" using extractTag_Inr by blast
  obtain d where d: "bindE (extractTag xml Description)
      (\<lambda>a. js_or a (extractTag xml Subtitle)) = Inr d" using tag_or_tag_Inr by blast
  from a show ?thesis
    by (cases "isAtom xml") (auto simp add: parseRssToJson_def t l d atomItems_eq rssItems_eq)
qed

subsection \<open>Evaluation on concrete text\<close>

lemmas text_eval =
  js_def lowerc_def is_ws_def trim_def truthy_def or_str_def js_or_def
  match_array_def group_def trim_group_def
  element_at_def cdata_at_def plain_at_def is_quote_def href_at_def atom_link_at_def
  digit_val_def parseInt_def excess_bits.simps to_double_def fromCharCode_def is_hex_def is_digit_def
  hex_entity_at_def dec_entity_at_def decodeHtmlEntities_def
  extractTag_def extractAtomLink_def

lemma match_lit_ci_iff:
  "match_lit_ci p t = Some r \<longleftrightarrow> (\<exists>m. t = m @ r \<and> map lowerc m = map lowerc p)"
proof (induction p t rule: match_lit_ci.induct)
  case (1 t)
  show ?case by auto
next
  case (2 p ps)
  show ?case by auto
next
  case (3 p ps c cs)
  show ?case
  proof (cases "lowerc p = lowerc c")
    case False
    have "\<not> (\<exists>m. c # cs = m @ r \<and> map lowerc m = map lowerc (p # ps))"
    proof
      assume "\<exists>m. c # cs = m @ r \<and> map lowerc m = map lowerc (p # ps)"
      then obtain m where m: "c # cs = m @ r" "map lowerc m = map lowerc (p # ps)" by blast
      from m(2) obtain x xs where "m = x # xs" "lowerc x = lowerc p" by (cases m) auto
      with m(1) False show False by simp
    qed
    with False show ?thesis by simp
  next
    case True
    have "(\<exists>m. c # cs = m @ r \<and> map lowerc m = map lowerc (p # ps))
        \<longleftrightarrow> (\<exists>m. cs = m @ r \<and> map lowerc m = map lowerc ps)"
    proof
      assume "\<exists>m. c # cs = m @ r \<and> map lowerc m = map lowerc (p # ps)"
      then obtain m where m: "c # cs = m @ r" "map lowerc m = map lowerc (p # ps)" by blast
      from m(2) obtain x xs where x: "m = x # xs" "map lowerc xs = map lowerc ps" by (cases m) auto
      with m(1) have "cs = xs @ r" by simp
      with x(2) show "\<exists>m. cs = m @ r \<and> map lowerc m = map lowerc ps" by blast
    next
      assume "\<exists>m. cs = m @ r \<and> map lowerc m = map lowerc ps"
      then obtain m where m: "cs = m @ r" "map lowerc m = map lowerc ps" by blast
      then have "c # cs = (c # m) @ r \<and> map lowerc (c # m) = map lowerc (p # ps)"
        using True by simp
      then show "\<exists>m. c # cs = m @ r \<and> map lowerc m = map lowerc (p # ps)" by blast
    qed
    with True 3 show ?thesis by simp
  qed
qed

lemma decode_named:
  "decodeHtmlEntities (js ''&amp;'') = js ''&''"
  "decodeHtmlEntities (js ''&lt;'') = js ''<''"
  "decodeHtmlEntities (js ''&gt;'') = js ''>''"
  "decodeHtmlEntities (js ''&quot;'') = [34]"
  "decodeHtmlEntities (js ''&#39;'') = [39]"
  "decodeHtmlEntities (js ''&#65;'') = js ''A''"
  by (simp_all add: text_eval cong: prod.case_cong_weak)

lemma extractTag_cdata_entities: "extractTag (js ''<title><![CDATA[&amp;&lt;&gt;&quot;&#39;&#65;]]></title>'') Title
      = Inr (Some [38, 60, 62, 34, 39, 65])"
  by (simp add: text_eval cong: prod.case_cong_weak)
lemma extractTag_ignores_case: "extractTag (js ''<TITLE><![cdata[ News ]]></Title>'') Title = Inr (Some (js ''News''))"
  by (simp add: text_eval cong: prod.case_cong_weak)
lemma extractTag_prefers_cdata: "extractTag (js ''<title>plain</title><title><![CDATA[cdata]]></title>'') Title
      = Inr (Some (js ''cdata''))"
  by (simp add: text_eval cong: prod.case_cong_weak)
lemma extractTag_plain_text: "extractTag (js ''<Title lang=en> a &amp; b </TITLE>'') Title = Inr (Some (js ''a & b''))"
  by (simp add: text_eval cong: prod.case_cong_weak)


subsection \<open>Feeds built from simple items\<close>

lemma match_lit_ci_other: "c \<noteq> 60 \<Longrightarrow> match_lit_ci (60 # l) (c # s) = None"
  by (simp add: lowerc_def)

lemma lazy_until_ci_skip:
  "60 \<notin> set t \<Longrightarrow>
   lazy_until_ci (60 # l) (t @ r) =
     (case lazy_until_ci (60 # l) r of Some (s, x) \<Rightarrow> Some (t @ s, x) | None \<Rightarrow> None)"
proof (induction t)
  case Nil
  show ?case by (simp split: option.splits)
next
  case (Cons c t)
  then have "c \<noteq> 60" "60 \<notin> set t" by auto
  with Cons.IH show ?case
    by (simp add: match_lit_ci_other del: match_lit_ci.simps split: option.splits)
qed

lemma regex_exec_skip:
  assumes other: "\<And>c s. c \<noteq> 60 \<Longrightarrow> rx (c # s) = None"
  shows "60 \<notin> set t \<Longrightarrow> regex_exec rx (t @ r) = regex_exec rx r"
  by (induction t) (simp_all add: other)

lemma regex_match_all_skip:
  assumes other: "\<And>c s. c \<noteq> 60 \<Longrightarrow> rx (c # s) = None"
  shows "60 \<notin> set t \<Longrightarrow> regex_match_all rx 0 (t @ r) = regex_match_all rx 0 r"
  by (induction t) (simp_all add: other)

lemma regex_match_all_pass: "regex_match_all rx (length xs) (xs @ r) = regex_match_all rx 0 r"
  by (induction xs) simp_all

lemma str_includes_skip:
  "60 \<notin> set t \<Longrightarrow> str_includes (t @ r) (60 # n) = str_includes r (60 # n)"
  by (induction t) auto

lemma element_at_other: "c \<noteq> 60 \<Longrightarrow> element_at name (c # s) = None"
  by (simp add: element_at_def js_def match_lit_ci_other del: match_lit_ci.simps)

lemma cdata_at_other: "c \<noteq> 60 \<Longrightarrow> cdata_at tag (c # s) = None"
  by (simp add: cdata_at_def js_def match_lit_ci_other del: match_lit_ci.simps)

lemma plain_at_other: "c \<noteq> 60 \<Longrightarrow> plain_at tag (c # s) = None"
  by (simp add: plain_at_def js_def match_lit_ci_other del: match_lit_ci.simps)

lemma element_at_simple_item:
  "60 \<notin> set t \<Longrightarrow> element_at (js ''item'') (simple_item t @ r) = Some ([], r)"
  by (simp add: element_at_def simple_item_def js_def lowerc_def lazy_until_ci_skip)

lemma regex_match_all_simple_item:
  assumes t: "60 \<notin> set t"
  shows "regex_match_all (element_at (js ''item'')) 0 (simple_item t @ r)
       = simple_item t # regex_match_all (element_at (js ''item'')) 0 r"
proof -
  obtain w where w: "simple_item t = 60 # w"
    by (simp add: simple_item_def js_def)
  have m: "element_at (js ''item'') (60 # w @ r) = Some ([], r)"
    using element_at_simple_item [OF t, of r] by (simp add: w)
  have whole: "hd (match_array (60 # w @ r) ([], r)) = 60 # w"
    by (simp add: match_array_def)
  show ?thesis
    by (simp add: w m whole regex_match_all_pass)
qed

lemma regex_match_all_simple_items:
  "list_all (\<lambda>t. 60 \<notin> set t) ts \<Longrightarrow>
   regex_match_all (element_at (js ''item'')) 0 (concat (map simple_item ts) @ r)
     = map simple_item ts @ regex_match_all (element_at (js ''item'')) 0 r"
  by (induction ts) (simp_all add: regex_match_all_simple_item)

lemma str_includes_simple_items:
  "list_all (\<lambda>t. 60 \<notin> set t) ts \<Longrightarrow>
   str_includes (concat (map simple_item ts) @ r) (js ''<feed'')
     = str_includes r (js ''<feed'')"
proof (induction ts)
  case Nil
  show ?case by simp
next
  case (Cons t ts)
  then have t: "60 \<notin> set t" and ts: "list_all (\<lambda>t. 60 \<notin> set t) ts" by auto
  have "str_includes (simple_item t @ x) (js ''<feed'') = str_includes x (js ''<feed'')" for x
    using str_includes_skip [OF t, of _ "js ''feed''"]
    by (simp add: simple_item_def js_def)
  with Cons.IH [OF ts] show ?case by simp
qed

lemma regex_exec_cdata_skip:
  "60 \<notin> set t \<Longrightarrow> regex_exec (cdata_at tag) (t @ r) = regex_exec (cdata_at tag) r"
  by (rule regex_exec_skip) (rule cdata_at_other)

lemma regex_exec_plain_skip:
  "60 \<notin> set t \<Longrightarrow> regex_exec (plain_at tag) (t @ r) = regex_exec (plain_at tag) r"
  by (rule regex_exec_skip) (rule plain_at_other)

lemma cdata_open_fails:
  "60 \<notin> set t \<Longrightarrow> match_lit_ci (60 # 33 # l) (t @ 60 # 47 # r) = None"
  by (cases t) (simp_all add: lowerc_def)

lemma extractTag_simple_item_title:
  assumes t: "60 \<notin> set t"
  shows "extractTag (simple_item t) Title = Inr (Some (decodeHtmlEntities (trim t)))"
proof -
  have c: "regex_exec (cdata_at (js ''title'')) (simple_item t) = None"
    using t
    by (simp add: simple_item_def js_def cdata_at_def lowerc_def cdata_open_fails
        regex_exec_cdata_skip [unfolded js_def])
  have p: "regex_exec (plain_at (js ''title'')) (simple_item t)
      = Some [js ''<title>'' @ t @ js ''</title>'', t]"
    using t
    by (simp add: simple_item_def js_def plain_at_def lowerc_def lazy_until_ci_skip match_array_def)
  show ?thesis by (simp add: extractTag_eq c p)
qed

lemma extractTag_simple_item_other:
  assumes t: "60 \<notin> set t" and tag: "tag \<noteq> Title"
  shows "extractTag (simple_item t) tag = Inr None"
proof -
  have c: "regex_exec (cdata_at (tag_name tag)) (simple_item t) = None"
    using t tag
    by (cases tag)
       (simp_all add: simple_item_def js_def cdata_at_def lowerc_def regex_exec_cdata_skip)
  have p: "regex_exec (plain_at (tag_name tag)) (simple_item t) = None"
    using t tag
    by (cases tag)
       (simp_all add: simple_item_def js_def plain_at_def lowerc_def regex_exec_plain_skip)
  show ?thesis by (simp add: extractTag_eq c p)
qed

lemma parseRssItem_simple_item:
  assumes t: "60 \<notin> set t"
  shows "parseRssItem (simple_item t)
      = Inr \<lparr> item_title = decodeHtmlEntities (trim t), pubDate = [], item_link = [],
              item_description = [], content = [] \<rparr>"
  by (simp add: parseRssItem_def extractTag_simple_item_title [OF t]
      extractTag_simple_item_other [OF t] js_or_def truthy_def or_str_def)

lemma titles35_plain:
  "list_all (\<lambda>t. 60 \<notin> set t \<and> t \<noteq> [] \<and> decodeHtmlEntities (trim t) = t) titles35"
  by (simp add: titles35_def decimal.simps upt_rec text_eval cong: prod.case_cong_weak)

lemma length_titles35: "length titles35 = 35"
  by (simp add: titles35_def)

lemma feed35_elements:
  "regex_match_all (element_at (js ''item'')) 0 feed35 = map simple_item titles35"
proof -
  let ?rx = "element_at (js ''item'')"
  have plain: "list_all (\<lambda>t. 60 \<notin> set t) titles35"
    using titles35_plain by (simp add: list_all_iff)
  have head: "regex_match_all ?rx 0 (js ''<rss><channel>'' @ x) = regex_match_all ?rx 0 x" for x
    by (simp add: js_def element_at_def lowerc_def)
  have tail: "regex_match_all ?rx 0 (js ''</channel></rss>'') = []"
    by (simp add: js_def element_at_def lowerc_def)
  show ?thesis
    unfolding feed35_def head regex_match_all_simple_items [OF plain] tail by simp
qed

lemma feed35_not_atom: "\<not> isAtom feed35"
proof -
  have plain: "list_all (\<lambda>t. 60 \<notin> set t) titles35"
    using titles35_plain by (simp add: list_all_iff)
  have head: "str_includes (js ''<rss><channel>'' @ x) (js ''<feed'') = str_includes x (js ''<feed'')" for x
    by (simp add: js_def)
  have tail: "\<not> str_includes (js ''</channel></rss>'') (js ''<feed'')"
    by (simp add: js_def)
  show ?thesis
    unfolding isAtom_def feed35_def head str_includes_simple_items [OF plain] using tail by simp
qed

lemma feed35_items:
  "map (\<lambda>el. projr (parseRssItem el)) (map simple_item titles35)
     = map (\<lambda>t. \<lparr> item_title = t, pubDate = [], item_link = [], item_description = [],
                    content = [] \<rparr>) titles35"
  using titles35_plain by (simp add: list_all_iff parseRssItem_simple_item)


subsection \<open>Format detection\<close>

lemma atomItems_atom_doc:
  "atomItems atom_doc = Inr [\<lparr> item_title = js ''E'', pubDate = [], item_link = js ''http://e'',
      item_description = [], content = [] \<rparr>]"
  by (simp add: atomItems_def atom_doc_def atom_ns_def parseAtomEntry_def retained_def text_eval
      cong: prod.case_cong_weak)




lemma str_includes_mid: "str_includes (a @ n @ b) n"
  by (simp add: includes_iff) blast

lemma isAtom_shape: "isAtom (a @ js ''<feed'' @ b @ atom_ns @ c)"
proof -
  have "str_includes (a @ js ''<feed'' @ (b @ atom_ns @ c)) (js ''<feed'')"
    by (rule str_includes_mid)
  moreover have "str_includes ((a @ js ''<feed'' @ b) @ atom_ns @ c) atom_ns"
    by (rule str_includes_mid)
  ultimately show ?thesis by (simp add: isAtom_def)
qed


section \<open>Facts about the handler\<close>

lemma header_get_set:
  "header_get (header_set k v hs) k' = (if k' = k then Some v else header_get hs k')"
  by (simp add: header_get_def header_set_def update_conv')

lemma has_cors_addCorsHeaders: "has_cors (addCorsHeaders r origin)"
  by (simp add: has_cors_def addCorsHeaders_def cors_header_names_def header_get_set Let_def)

lemma getCacheTtl_pos: "0 < getCacheTtl ct h"
  by (simp add: getCacheTtl_def)

lemma js_neq:
  "js ''OPTIONS'' \<noteq> js ''GET''" "js ''GET'' \<noteq> js ''OPTIONS''"
  "js ''HEAD'' \<noteq> js ''GET''" "js ''HEAD'' \<noteq> js ''OPTIONS''"
  "js ''MISS'' \<noteq> js ''HIT''" "js ''HIT'' \<noteq> js ''MISS''"
  by (simp_all add: js_def)

lemma or_str_Some: "u \<noteq> [] \<Longrightarrow> or_str (Some u) d = u"
  by (simp add: or_str_def)

lemma fetch_options:
  "req_method rq = js ''OPTIONS'' \<Longrightarrow>
   fetch e c rq = \<lparr> result = Inr (preflight_response (or_str (origin_header rq) (js ''*''))),
                     cache_after = c, fetched = [] \<rparr>"
  by (simp add: fetch_def)

lemma fetch_405:
  "req_method rq \<noteq> js ''GET'' \<Longrightarrow> req_method rq \<noteq> js ''OPTIONS'' \<Longrightarrow>
   fetch e c rq = \<lparr> result = Inr method_not_allowed, cache_after = c, fetched = [] \<rparr>"
  by (simp add: fetch_def)

lemma fetch_400:
  "req_method rq = js ''GET'' \<Longrightarrow> \<not> truthy (url_param rq) \<Longrightarrow>
   fetch e c rq = \<lparr> result = Inr missing_url, cache_after = c, fetched = [] \<rparr>"
  by (simp add: fetch_def js_neq Let_def)

lemma fetch_403:
  "req_method rq = js ''GET'' \<Longrightarrow> url_param rq = Some u \<Longrightarrow> u \<noteq> [] \<Longrightarrow>
   \<not> isAllowedOrigin (new_URL e) u \<Longrightarrow>
   fetch e c rq = \<lparr> result = Inr domain_not_allowed, cache_after = c, fetched = [] \<rparr>"
  by (simp add: fetch_def js_neq Let_def truthy_def or_str_Some)

lemma fetch_allowed:
  "req_method rq = js ''GET'' \<Longrightarrow> url_param rq = Some u \<Longrightarrow> u \<noteq> [] \<Longrightarrow>
   isAllowedOrigin (new_URL e) u \<Longrightarrow>
   fetch e c rq =
     (case new_Request e (cacheKeyUrl u (format_param rq = Some (js ''json''))) of
        Inl err \<Rightarrow> \<lparr> result = Inl err, cache_after = c, fetched = [] \<rparr>
      | Inr key \<Rightarrow>
          (case c key of
             Some cachedResponse \<Rightarrow>
               \<lparr> result = Inr (cache_hit cachedResponse (or_str (origin_header rq) (js ''*''))),
                 cache_after = c, fetched = [] \<rparr>
           | None \<Rightarrow>
               fetch_origin e c u (format_param rq = Some (js ''json''))
                 (or_str (origin_header rq) (js ''*'')) key))"
  by (simp add: fetch_def js_neq Let_def truthy_def or_str_Some)

lemma not_cors:
  "\<not> has_cors method_not_allowed" "\<not> has_cors missing_url" "\<not> has_cors domain_not_allowed"
  by (simp_all add: has_cors_def method_not_allowed_def missing_url_def domain_not_allowed_def
      cors_header_names_def header_get_def)

lemma x_cache_addCors:
  "header_get (headers (addCorsHeaders r origin)) ''X-Cache'' = header_get (headers r) ''X-Cache''"
  by (simp add: addCorsHeaders_def header_get_set Let_def)

lemma body_addCors: "body (addCorsHeaders r origin) = body r"
  by (simp add: addCorsHeaders_def Let_def)

lemma status_addCors: "status (addCorsHeaders r origin) = status r"
  by (simp add: addCorsHeaders_def Let_def)

lemma x_cache_errors:
  "header_get (headers (proxy_error err u origin)) ''X-Cache'' = None"
  "header_get (headers (upstream_error r u origin)) ''X-Cache'' = None"
  "header_get (headers (parse_failure err origin)) ''X-Cache'' = None"
  unfolding proxy_error_def upstream_error_def parse_failure_def x_cache_addCors
  by (simp_all add: header_get_def)

lemma finish_miss_facts:
  "result (finish_miss e c k origin ttl b ct reqs) = Inr r \<Longrightarrow> 0 < ttl \<Longrightarrow>
   \<exists>st. cache_after (finish_miss e c k origin ttl b ct reqs) k = Some st \<and> body st = body r"
  by (auto simp add: finish_miss_def Let_def body_addCors)

lemma fetch_origin_miss:
  assumes res: "result (fetch_origin e c u w origin k) = Inr r"
    and miss: "header_get (headers r) ''X-Cache'' = Some (js ''MISS'')"
  shows "\<exists>st. cache_after (fetch_origin e c u w origin k) k = Some st \<and> body st = body r"
proof (cases "new_URL e u")
  case None
  with res miss show ?thesis
    by (auto simp add: fetch_origin_def x_cache_errors)
next
  case (Some obj)
  note url = this
  show ?thesis
  proof (cases "upstream e u (getCacheTtl [] (hostname obj))")
    case (Inl err)
    with url res miss show ?thesis
      by (auto simp add: fetch_origin_def Let_def x_cache_errors)
  next
    case (Inr up)
    note upr = this
    show ?thesis
    proof (cases "200 \<le> up_status up \<and> up_status up \<le> 299")
      case False
      with url upr res miss show ?thesis
        by (auto simp add: fetch_origin_def Let_def x_cache_errors split: if_splits)
    next
      case True
      note ok = this
      show ?thesis
      proof (cases "up_text up")
        case (Inl err)
        with url upr ok res miss show ?thesis
          by (auto simp add: fetch_origin_def Let_def x_cache_errors)
      next
        case (Inr txt0)
        note btxt = this
        let ?ct = "or_str (up_contentType up) []"
        let ?ttl = "getCacheTtl ?ct (hostname obj)"
        show ?thesis
        proof (cases "w \<and> isRssFeed ?ct txt0")
          case False
          with url upr ok btxt have eq: "fetch_origin e c u w origin k =
              finish_miss e c k origin ?ttl (Text txt0) ?ct [(u, getCacheTtl [] (hostname obj))]"
            by (auto simp add: fetch_origin_def Let_def)
          show ?thesis
            using res finish_miss_facts [OF _ getCacheTtl_pos] unfolding eq by blast
        next
          case True
          note feed = this
          show ?thesis
          proof (cases "parseRssToJson txt0 u")
            case (Inl perr)
            with url upr ok btxt feed res miss show ?thesis
              by (auto simp add: fetch_origin_def Let_def x_cache_errors)
          next
            case (Inr parsed)
            with url upr ok btxt feed have eq: "fetch_origin e c u w origin k =
                finish_miss e c k origin ?ttl (Json (json_of_document parsed))
                  (js ''application/json'') [(u, getCacheTtl [] (hostname obj))]"
              by (auto simp add: fetch_origin_def Let_def)
            show ?thesis
              using res finish_miss_facts [OF _ getCacheTtl_pos] unfolding eq by blast
          qed
        qed
      qed
    qed
  qed
qed

lemma fetch_miss_stores:
  assumes res: "result (fetch e c rq) = Inr r"
    and miss: "header_get (headers r) ''X-Cache'' = Some (js ''MISS'')"
  shows "\<exists>u key st. url_param rq = Some u \<and> u \<noteq> [] \<and> req_method rq = js ''GET''
           \<and> new_Request e (cacheKeyUrl u (format_param rq = Some (js ''json''))) = Inr key
           \<and> cache_after (fetch e c rq) key = Some st \<and> body st = body r"
proof -
  have no_x: "header_get (headers (preflight_response origin)) ''X-Cache'' = None"
    "header_get (headers method_not_allowed) ''X-Cache'' = None"
    "header_get (headers missing_url) ''X-Cache'' = None"
    "header_get (headers domain_not_allowed) ''X-Cache'' = None" for origin
    by (simp_all add: preflight_response_def method_not_allowed_def missing_url_def
        domain_not_allowed_def header_get_def)
  have hit: "header_get (headers (cache_hit cr origin)) ''X-Cache'' = Some (js ''HIT'')" for cr origin
    by (simp add: cache_hit_def Let_def header_get_set)
  have m: "req_method rq = js ''GET''"
    using res miss fetch_options [of rq e c] fetch_405 [of rq e c]
    by (cases "req_method rq = js ''OPTIONS''"; cases "req_method rq = js ''GET''") (auto simp add: no_x)
  have t: "truthy (url_param rq)"
    using res miss m fetch_400 [of rq e c] by (cases "truthy (url_param rq)") (auto simp add: no_x)
  then obtain u where u: "url_param rq = Some u" "u \<noteq> []"
    by (auto simp add: truthy_def split: option.splits)
  have a: "isAllowedOrigin (new_URL e) u"
    using res miss m u fetch_403 [of rq u e c]
    by (cases "isAllowedOrigin (new_URL e) u") (auto simp add: no_x)
  note eq = fetch_allowed [OF m u a, of c]
  let ?w = "format_param rq = Some (js ''json'')"
  obtain key where key: "new_Request e (cacheKeyUrl u ?w) = Inr key"
    using res unfolding eq by (cases "new_Request e (cacheKeyUrl u ?w)") auto
  have none: "c key = None"
    using res miss unfolding eq key by (cases "c key") (auto simp add: hit js_neq)
  have eq': "fetch e c rq = fetch_origin e c u ?w (or_str (origin_header rq) (js ''*'')) key"
    unfolding eq key by (simp add: none)
  from fetch_origin_miss [OF res [unfolded eq'] miss]
  show ?thesis using m u key unfolding eq' by blast
qed

lemma evil_not_allowed: "\<not> isAllowedOrigin example_parser (js ''https://evil.example.com/feed'')"
  by (simp add: isAllowedOrigin_def example_parser_def ALLOWED_ORIGINS_def js_def)

lemma bbc_allowed:
  "isAllowedOrigin example_parser (js ''https://feeds.bbci.co.uk/news/rss.xml'')"
  "isAllowedOrigin example_parser (js ''https://feeds.bbci.co.uk/news/rss.xml__json'')"
  by (simp_all add: isAllowedOrigin_def example_parser_def ALLOWED_ORIGINS_def js_def)

lemma isAllowedOrigin_iff:
  "isAllowedOrigin parse u =
     (case parse u of
        None \<Rightarrow> False
      | Some url \<Rightarrow> (\<exists>allowed p s. allowed \<in> set ALLOWED_ORIGINS \<and> hostname url = p @ allowed @ s))"
  by (auto simp add: isAllowedOrigin_def list_ex_iff includes_iff split: option.splits)

lemma has_cors_header_set: "has_cors r \<Longrightarrow> has_cors (r \<lparr> headers := header_set k v (headers r) \<rparr>)"
  by (simp add: has_cors_def list_all_iff header_get_set)

lemma has_cors_cache_hit: "has_cors (cache_hit cr origin)"
proof -
  have "has_cors (addCorsHeaders cr origin)" by (rule has_cors_addCorsHeaders)
  then show ?thesis
    by (simp add: cache_hit_def Let_def has_cors_def list_all_iff header_get_set)
qed

lemma has_cors_preflight: "has_cors (preflight_response origin)"
  by (simp add: has_cors_def preflight_response_def cors_header_names_def header_get_def)

lemma has_cors_finish_miss:
  "result (finish_miss e c k origin ttl b ct reqs) = Inr r \<Longrightarrow> has_cors r"
  by (auto simp add: finish_miss_def Let_def has_cors_addCorsHeaders)

lemma has_cors_fetch_origin:
  assumes "result (fetch_origin e c u w origin k) = Inr r"
  shows "has_cors r"
proof -
  have err: "has_cors (proxy_error x u origin)" "has_cors (upstream_error y u origin)"
    "has_cors (parse_failure x origin)" for x y
    by (simp_all add: proxy_error_def upstream_error_def parse_failure_def has_cors_addCorsHeaders)
  show ?thesis
    using assms
    by (auto simp add: fetch_origin_def Let_def err split: option.splits sum.splits if_splits
        dest: has_cors_finish_miss)
qed

lemma cors_on_other_paths:
  assumes res: "result (fetch e c rq) = Inr r"
  shows "has_cors r \<or> r = method_not_allowed \<or> r = missing_url \<or> r = domain_not_allowed"
proof (cases "req_method rq = js ''OPTIONS''")
  case True
  with res fetch_options [of rq e c] show ?thesis by (auto simp add: has_cors_preflight)
next
  case False
  note not_options = this
  show ?thesis
  proof (cases "req_method rq = js ''GET''")
    case False
    with not_options res fetch_405 [of rq e c] show ?thesis by auto
  next
    case True
    note get = this
    show ?thesis
    proof (cases "truthy (url_param rq)")
      case False
      with get res fetch_400 [of rq e c] show ?thesis by auto
    next
      case True
      then obtain u where u: "url_param rq = Some u" "u \<noteq> []"
        by (auto simp add: truthy_def split: option.splits)
      show ?thesis
      proof (cases "isAllowedOrigin (new_URL e) u")
        case False
        with get u res fetch_403 [of rq u e c] show ?thesis by auto
      next
        case True
        from res show ?thesis
          unfolding fetch_allowed [OF get u True, of c]
          by (auto simp add: has_cors_cache_hit split: option.splits sum.splits
              dest: has_cors_fetch_origin)
      qed
    qed
  qed
qed

lemma fetch_origin_ok:
  assumes url: "new_URL e u = Some obj"
    and up: "upstream e u (getCacheTtl [] (hostname obj)) = Inr up"
    and ok: "200 \<le> up_status up \<and> up_status up \<le> 299"
    and btxt: "up_text up = Inr txt0"
  shows "\<exists>r. result (fetch_origin e c u w origin k) = Inr r
           \<and> header_get (headers r) ''X-Cache'' = Some (js ''MISS'') \<and> status r = 200
           \<and> (w \<and> isRssFeed (or_str (up_contentType up) []) txt0 \<longrightarrow> (\<exists>j. body r = Json j))"
proof -
  let ?ct = "or_str (up_contentType up) []"
  let ?ttl = "getCacheTtl ?ct (hostname obj)"
  let ?reqs = "[(u, getCacheTtl [] (hostname obj))]"
  have fm: "\<exists>r. result (finish_miss e c k origin ?ttl b ct ?reqs) = Inr r
           \<and> header_get (headers r) ''X-Cache'' = Some (js ''MISS'') \<and> status r = 200
           \<and> body r = b" for b ct
    by (simp add: finish_miss_def Let_def x_cache_addCors status_addCors body_addCors)
       (simp add: header_get_def)
  show ?thesis
  proof (cases "w \<and> isRssFeed ?ct txt0")
    case False
    with url up ok btxt have "fetch_origin e c u w origin k =
        finish_miss e c k origin ?ttl (Text txt0) ?ct ?reqs"
      by (auto simp add: fetch_origin_def Let_def)
    with fm [of "Text txt0" ?ct] False show ?thesis by auto
  next
    case True
    obtain parsed where "parseRssToJson txt0 u = Inr parsed"
      using parseRssToJson_Inr by blast
    with url up ok btxt True have "fetch_origin e c u w origin k =
        finish_miss e c k origin ?ttl (Json (json_of_document parsed)) (js ''application/json'') ?reqs"
      by (auto simp add: fetch_origin_def Let_def)
    with fm [of "Json (json_of_document parsed)" "js ''application/json''"] show ?thesis by auto
  qed
qed

subsection \<open>Missing fields and the parse-failure exit\<close>

lemma parseRssItem_fields:
  "\<exists>i. parseRssItem el = Inr i
     \<and> (extractTag el Title = Inr None \<longrightarrow> item_title i = [])
     \<and> (extractTag el PubDate = Inr None \<and> extractTag el DcDate = Inr None
          \<longrightarrow> pubDate i = [])
     \<and> (extractTag el Link = Inr None \<and> extractTag el Guid = Inr None
          \<longrightarrow> item_link i = [])
     \<and> (extractTag el Description = Inr None \<longrightarrow> item_description i = [])
     \<and> (extractTag el ContentEncoded = Inr None \<and> extractTag el Content = Inr None
          \<longrightarrow> content i = [])"
proof -
  obtain t where t: "extractTag el Title = Inr t" using extractTag_Inr by blast
  obtain p where p: "extractTag el PubDate = Inr p" using extractTag_Inr by blast
  obtain dc where dc: "extractTag el DcDate = Inr dc" using extractTag_Inr by blast
  obtain l where l: "extractTag el Link = Inr l" using extractTag_Inr by blast
  obtain g where g: "extractTag el Guid = Inr g" using extractTag_Inr by blast
  obtain d where d: "extractTag el Description = Inr d" using extractTag_Inr by blast
  obtain ce where ce: "extractTag el ContentEncoded = Inr ce" using extractTag_Inr by blast
  obtain c where c: "extractTag el Content = Inr c" using extractTag_Inr by blast
  show ?thesis
    by (simp add: parseRssItem_def t p dc l g d ce c js_or_def truthy_def or_str_def)
qed

lemma parseAtomEntry_fields:
  "\<exists>i. parseAtomEntry el = Inr i
     \<and> (extractTag el Title = Inr None \<longrightarrow> item_title i = [])
     \<and> (extractTag el Published = Inr None \<and> extractTag el Updated = Inr None
          \<longrightarrow> pubDate i = [])
     \<and> (extractAtomLink el = Inr None \<longrightarrow> item_link i = [])
     \<and> (extractTag el Summary = Inr None \<and> extractTag el Content = Inr None
          \<longrightarrow> item_description i = [])
     \<and> (extractTag el Content = Inr None \<longrightarrow> content i = [])"
proof -
  obtain t where t: "extractTag el Title = Inr t" using extractTag_Inr by blast
  obtain p where p: "extractTag el Published = Inr p" using extractTag_Inr by blast
  obtain u where u: "extractTag el Updated = Inr u" using extractTag_Inr by blast
  obtain l where l: "extractAtomLink el = Inr l" using extractAtomLink_Inr by blast
  obtain s where s: "extractTag el Summary = Inr s" using extractTag_Inr by blast
  obtain c where c: "extractTag el Content = Inr c" using extractTag_Inr by blast
  show ?thesis
    by (simp add: parseAtomEntry_def t p u l s c js_or_def truthy_def or_str_def)
qed

lemma parseRssToJson_fields:
  "\<exists>doc. parseRssToJson xml url = Inr doc
     \<and> doc_status doc = js ''ok'' \<and> feed_url (feed doc) = url
     \<and> (extractTag xml Title = Inr None \<longrightarrow> feed_title (feed doc) = [])
     \<and> (extractTag xml Link = Inr None \<longrightarrow> feed_link (feed doc) = url)
     \<and> (extractTag xml Description = Inr None \<and> extractTag xml Subtitle = Inr None
          \<longrightarrow> feed_description (feed doc) = [])"
proof -
  obtain t where t: "extractTag xml Title = Inr t" using extractTag_Inr by blast
  obtain l where l: "extractTag xml Link = Inr l" using extractTag_Inr by blast
  obtain d where d: "extractTag xml Description = Inr d" using extractTag_Inr by blast
  obtain s where s: "extractTag xml Subtitle = Inr s" using extractTag_Inr by blast
  show ?thesis
    by (simp add: parseRssToJson_def t l d s js_or_def truthy_def or_str_def
        atomItems_eq rssItems_eq)
qed

lemma parseRssToJson_items_from_elements:
  assumes "parseRssToJson xml url = Inr doc"
  shows "set (items doc) \<subseteq> (\<lambda>el. projr (parseAtomEntry el)) ` UNIV \<union> (\<lambda>el. projr (parseRssItem el)) ` UNIV"
  using parseRssToJson_items [OF assms]
  by (cases "isAtom xml") (auto simp add: atomItems_eq rssItems_eq)

lemma fetch_origin_not_parse_failure:
  "result (fetch_origin e c u w origin k) \<noteq> Inr (parse_failure err origin')"
proof -
  have pe: "proxy_error x u origin \<noteq> parse_failure err origin'" for x
  proof
    assume "proxy_error x u origin = parse_failure err origin'"
    then have "status (proxy_error x u origin) = status (parse_failure err origin')" by simp
    then show False by (simp add: proxy_error_def parse_failure_def status_addCors)
  qed
  have ue: "upstream_error up u origin \<noteq> parse_failure err origin'" for up
  proof
    assume "upstream_error up u origin = parse_failure err origin'"
    then have "body (upstream_error up u origin) = body (parse_failure err origin')" by simp
    then show False
      by (simp add: upstream_error_def upstream_error_body_def parse_failure_def body_addCors)
  qed
  have fm: "result (finish_miss e c k origin ttl b ct reqs) \<noteq> Inr (parse_failure err origin')"
    for ttl b ct reqs
  proof
    assume "result (finish_miss e c k origin ttl b ct reqs) = Inr (parse_failure err origin')"
    then obtain r where r: "result (finish_miss e c k origin ttl b ct reqs) = Inr r"
      "r = parse_failure err origin'" by blast
    from r(1) have "status r = 200"
      by (auto simp add: finish_miss_def Let_def status_addCors)
    with r(2) show False by (simp add: parse_failure_def status_addCors)
  qed
  obtain parsed where parsed: "\<And>x. \<exists>p. parseRssToJson x u = Inr p"
    using parseRssToJson_Inr by blast
  show ?thesis
  proof (cases "new_URL e u")
    case None
    then show ?thesis by (simp add: fetch_origin_def pe)
  next
    case (Some obj)
    note url = this
    show ?thesis
    proof (cases "upstream e u (getCacheTtl [] (hostname obj))")
      case (Inl x)
      with url show ?thesis by (simp add: fetch_origin_def Let_def pe)
    next
      case (Inr up)
      note upr = this
      show ?thesis
      proof (cases "up_text up")
        case (Inl x)
        with url upr show ?thesis by (simp add: fetch_origin_def Let_def pe ue)
      next
        case (Inr txt0)
        obtain p where p: "parseRssToJson txt0 u = Inr p" using parseRssToJson_Inr by blast
        with url upr Inr show ?thesis by (simp add: fetch_origin_def Let_def pe ue fm)
      qed
    qed
  qed
qed

lemma fetch_not_parse_failure:
  "result (fetch e c rq) \<noteq> Inr (parse_failure err origin)"
proof
  assume a: "result (fetch e c rq) = Inr (parse_failure err origin)"
  let ?r = "parse_failure err origin"
  have st: "status ?r = 500" by (simp add: parse_failure_def status_addCors)
  have cors: "has_cors ?r" by (simp add: parse_failure_def has_cors_addCorsHeaders)
  have nox: "header_get (headers ?r) ''X-Cache'' = None" by (rule x_cache_errors)
  have early: "?r \<noteq> method_not_allowed" "?r \<noteq> missing_url" "?r \<noteq> domain_not_allowed"
    using cors not_cors by auto
  have pre: "?r \<noteq> preflight_response x" for x
  proof
    assume "?r = preflight_response x"
    then have "status ?r = status (preflight_response x)" by simp
    with st show False by (simp add: preflight_response_def)
  qed
  have hit: "?r \<noteq> cache_hit cr x" for cr x
  proof
    assume "?r = cache_hit cr x"
    then have "header_get (headers ?r) ''X-Cache'' = header_get (headers (cache_hit cr x)) ''X-Cache''"
      by simp
    with nox show False by (simp add: cache_hit_def Let_def header_get_set)
  qed
  show False
  proof (cases "req_method rq = js ''OPTIONS''")
    case True
    with a fetch_options [of rq e c] pre [symmetric] show ?thesis by auto
  next
    case False
    note not_options = this
    show ?thesis
    proof (cases "req_method rq = js ''GET''")
      case False
      with not_options a fetch_405 [of rq e c] early [symmetric] show ?thesis by auto
    next
      case True
      note get = this
      show ?thesis
      proof (cases "truthy (url_param rq)")
        case False
        with get a fetch_400 [of rq e c] early [symmetric] show ?thesis by auto
      next
        case True
        then obtain u where u: "url_param rq = Some u" "u \<noteq> []"
          by (auto simp add: truthy_def split: option.splits)
        show ?thesis
        proof (cases "isAllowedOrigin (new_URL e) u")
          case False
          with get u a fetch_403 [of rq u e c] early [symmetric] show ?thesis by auto
        next
          case True
          from a show ?thesis
            unfolding fetch_allowed [OF get u True, of c]
            using hit [symmetric] fetch_origin_not_parse_failure
            by (auto split: option.splits sum.splits)
        qed
      qed
    qed
  qed
qed

lemma example_feed_missing_tags:
  "extractTag example_feed Link = Inr None"
  "extractTag example_feed Description = Inr None"
  "extractTag example_feed Subtitle = Inr None"
  by (simp_all add: example_feed_def text_eval cong: prod.case_cong_weak)

lemma empty_document:
  "extractTag [] tag = Inr None"
  "parseRssToJson [] url
     = Inr \<lparr> doc_status = js ''ok'',
             feed = \<lparr> feed_url = url, feed_title = [], feed_link = url, feed_description = [] \<rparr>,
             items = [] \<rparr>"
proof -
  show none: "extractTag [] tag = Inr None" for tag
    by (simp add: extractTag_def cdata_at_def plain_at_def js_def)
  have "\<not> isAtom []" by (simp add: isAtom_def js_def)
  moreover have "rssItems [] = Inr []"
    by (simp add: rssItems_def element_at_def js_def)
  ultimately show "parseRssToJson [] url
     = Inr \<lparr> doc_status = js ''ok'',
             feed = \<lparr> feed_url = url, feed_title = [], feed_link = url, feed_description = [] \<rparr>,
             items = [] \<rparr>"
    by (simp add: parseRssToJson_def none js_or_def truthy_def or_str_def)
qed

subsection \<open>Elements in any case, with attributes\<close>

lemma lowerc_eq_60: "lowerc c = 60 \<longleftrightarrow> c = 60"
  by (simp add: lowerc_def)

lemma lowerc_eq_47: "lowerc c = 47 \<longleftrightarrow> c = 47"
  by (simp add: lowerc_def)

lemma lowerc_eq_93: "lowerc c = 93 \<longleftrightarrow> c = 93"
  by (simp add: lowerc_def)

lemma match_lit_ci_same:
  "map lowerc m = map lowerc p \<Longrightarrow> match_lit_ci p (m @ r) = Some r"
  using match_lit_ci_iff [of p "m @ r" r] by blast

lemma skip_tag_rest_attrs: "62 \<notin> set attrs \<Longrightarrow> skip_tag_rest (attrs @ 62 # r) = Some r"
  by (induction attrs) simp_all

lemma lazy_until_ci_now:
  "match_lit_ci (a # l) x = Some r \<Longrightarrow> lazy_until_ci (a # l) x = Some ([], r)"
  by (cases x) simp_all

lemma lazy_until_ci_skip_93:
  "93 \<notin> set t \<Longrightarrow>
   lazy_until_ci (93 # l) (t @ r) =
     (case lazy_until_ci (93 # l) r of Some (s, x) \<Rightarrow> Some (t @ s, x) | None \<Rightarrow> None)"
proof (induction t)
  case Nil
  show ?case by (simp split: option.splits)
next
  case (Cons c t)
  then have c: "lowerc c \<noteq> 93" and t: "93 \<notin> set t" by (auto simp add: lowerc_eq_93)
  have "lowerc 93 = 93" by (simp add: lowerc_def)
  with c Cons.IH [OF t] show ?case by (simp split: option.splits)
qed

lemma ci_no_60:
  assumes "map lowerc m = map lowerc l" and "60 \<notin> set l"
  shows "60 \<notin> set m"
proof
  assume "60 \<in> set m"
  then have "lowerc 60 \<in> set (map lowerc m)" by (simp only: set_map) (rule imageI)
  then have "60 \<in> set (map lowerc l)" by (simp add: assms(1) lowerc_def)
  then obtain x where "x \<in> set l" "lowerc x = 60" by auto
  with assms(2) show False by (simp add: lowerc_eq_60)
qed

lemma tag_name_no_60: "60 \<notin> set (tag_name tag)"
  by (cases tag) (simp_all add: js_def)

lemma tag_name_first: "\<exists>a l. tag_name tag = a # l \<and> lowerc a \<noteq> 47"
  by (cases tag) (simp_all add: js_def lowerc_def)

lemma extractTag_cdata_element:
  assumes pre: "60 \<notin> set pre"
    and nm: "map lowerc nm = map lowerc (tag_name tag)"
    and attrs: "62 \<notin> set attrs"
    and cd: "map lowerc cd = map lowerc (js ''<![CDATA['')"
    and inner: "93 \<notin> set inner"
    and cl: "map lowerc cl = map lowerc (js '']]></'' @ tag_name tag @ js ''>'')"
  shows "extractTag (pre @ js ''<'' @ nm @ attrs @ js ''>'' @ cd @ inner @ cl @ post) tag
       = Inr (Some (decodeHtmlEntities (trim inner)))"
proof -
  let ?T = "tag_name tag"
  let ?x = "60 # nm @ attrs @ 62 # cd @ inner @ cl @ post"
  have closer: "js '']]></'' @ ?T @ js ''>'' = 93 # (93 # 62 # 60 # 47 # ?T @ [62])"
    by (simp add: js_def)
  have "lazy_until_ci (93 # (93 # 62 # 60 # 47 # ?T @ [62])) (cl @ post) = Some ([], post)"
    by (rule lazy_until_ci_now) (rule match_lit_ci_same, simp only: cl closer)
  then have lazy: "lazy_until_ci (js '']]></'' @ ?T @ js ''>'') (inner @ cl @ post) = Some (inner, post)"
    unfolding closer by (simp add: lazy_until_ci_skip_93 [OF inner])
  have name: "match_lit_ci (js ''<'' @ ?T) ?x = Some (attrs @ 62 # cd @ inner @ cl @ post)"
    using match_lit_ci_same [OF nm, of "attrs @ 62 # cd @ inner @ cl @ post"]
    by (simp add: js_def lowerc_def)
  have at: "cdata_at ?T ?x = Some ([inner], post)"
    by (simp only: cdata_at_def name option.case skip_tag_rest_attrs [OF attrs]
          match_lit_ci_same [OF cd] lazy prod.case)
  have "regex_exec (cdata_at ?T) (pre @ ?x) = regex_exec (cdata_at ?T) ?x"
    by (rule regex_exec_cdata_skip [OF pre])
  also have "\<dots> = Some (match_array ?x ([inner], post))"
    by (simp add: at)
  finally have "regex_exec (cdata_at ?T) (pre @ ?x) = Some (match_array ?x ([inner], post))" .
  moreover have "match_array ?x ([inner], post) ! 1 = inner"
    by (simp add: match_array_def)
  moreover have "pre @ js ''<'' @ nm @ attrs @ js ''>'' @ cd @ inner @ cl @ post = pre @ ?x"
    by (simp add: js_def)
  ultimately show ?thesis
    by (simp only: extractTag_eq option.case)
qed

lemma regex_exec_no_60:
  assumes other: "\<And>c s. c \<noteq> 60 \<Longrightarrow> rx (c # s) = None" and empty: "rx [] = None"
  shows "60 \<notin> set t \<Longrightarrow> regex_exec rx t = None"
  by (induction t) (simp_all add: other empty)

lemma cdata_at_Nil: "cdata_at name [] = None"
  by (simp add: cdata_at_def js_def)

lemma plain_at_Nil: "plain_at name [] = None"
  by (simp add: plain_at_def js_def)

lemma extractTag_no_markup: "60 \<notin> set xml \<Longrightarrow> extractTag xml tag = Inr None"
proof -
  assume xml: "60 \<notin> set xml"
  have "regex_exec (cdata_at (tag_name tag)) xml = None"
    by (rule regex_exec_no_60 [OF cdata_at_other cdata_at_Nil xml])
  moreover have "regex_exec (plain_at (tag_name tag)) xml = None"
    by (rule regex_exec_no_60 [OF plain_at_other plain_at_Nil xml])
  ultimately show ?thesis by (simp add: extractTag_eq)
qed

lemma extractTag_plain_element:
  assumes pre: "60 \<notin> set pre"
    and nm: "map lowerc nm = map lowerc (tag_name tag)"
    and attrs: "60 \<notin> set attrs" "62 \<notin> set attrs"
    and inner: "60 \<notin> set inner"
    and cl: "map lowerc cl = map lowerc (js ''</'' @ tag_name tag @ js ''>'')"
    and post: "60 \<notin> set post"
  shows "extractTag (pre @ js ''<'' @ nm @ attrs @ js ''>'' @ inner @ cl @ post) tag
       = Inr (Some (decodeHtmlEntities (trim inner)))"
proof -
  let ?T = "tag_name tag"
  let ?x = "60 # nm @ attrs @ 62 # inner @ cl @ post"
  have closer: "js ''</'' @ ?T @ js ''>'' = 60 # 47 # ?T @ [62]"
    by (simp add: js_def)
  from cl obtain c1 c2 cl' where "cl = c1 # c2 # cl'" "lowerc c1 = 60" "lowerc c2 = 47"
    "map lowerc cl' = map lowerc (?T @ [62])"
    unfolding closer by (cases cl; cases "tl cl") (auto simp add: lowerc_def)
  then have cl': "cl = 60 # 47 # cl'" "map lowerc cl' = map lowerc (?T @ [62])"
    by (simp_all add: lowerc_eq_60 lowerc_eq_47)
  have no60: "60 \<notin> set cl'"
    by (rule ci_no_60 [OF cl'(2)]) (simp add: tag_name_no_60)
  have nm60: "60 \<notin> set nm"
    by (rule ci_no_60 [OF nm tag_name_no_60])
  have name: "match_lit_ci (js ''<'' @ ?T) ?x = Some (attrs @ 62 # inner @ cl @ post)"
    using match_lit_ci_same [OF nm, of "attrs @ 62 # inner @ cl @ post"]
    by (simp add: js_def lowerc_def)
  \<comment> \<open>the CDATA expression matches nowhere\<close>
  have open_fails: "match_lit_ci (js ''<![CDATA['') (inner @ cl @ post) = None"
    using cdata_open_fails [OF inner, of _ "cl' @ post"] by (simp add: js_def cl'(1))
  have c0: "cdata_at ?T ?x = None"
    by (simp only: cdata_at_def name option.case skip_tag_rest_attrs [OF attrs(2)] open_fails)
  obtain a l where first: "?T = a # l" "lowerc a \<noteq> 47"
    using tag_name_first by blast
  have c1: "cdata_at ?T (60 # 47 # cl' @ post) = None"
    using first by (simp add: cdata_at_def js_def lowerc_def)
  have tail: "regex_exec (cdata_at ?T) (47 # cl' @ post) = None"
  proof (rule regex_exec_no_60 [OF cdata_at_other cdata_at_Nil])
    show "60 \<notin> set (47 # cl' @ post)" using no60 post by simp
  qed
  have block: "60 \<notin> set (nm @ attrs @ 62 # inner)"
    using nm60 attrs(1) inner by simp
  have "regex_exec (cdata_at ?T) (pre @ ?x) = regex_exec (cdata_at ?T) ?x"
    by (rule regex_exec_cdata_skip [OF pre])
  also have "\<dots> = regex_exec (cdata_at ?T) ((nm @ attrs @ 62 # inner) @ 60 # 47 # cl' @ post)"
    using c0 by (simp add: cl'(1))
  also have "\<dots> = regex_exec (cdata_at ?T) (60 # 47 # cl' @ post)"
    by (rule regex_exec_cdata_skip [OF block])
  also have "\<dots> = None"
    using tail by (simp add: c1)
  finally have cdata: "regex_exec (cdata_at ?T) (pre @ ?x) = None" .
  \<comment> \<open>the plain expression matches at the element\<close>
  have "lazy_until_ci (60 # 47 # ?T @ [62]) (cl @ post) = Some ([], post)"
    by (rule lazy_until_ci_now) (rule match_lit_ci_same, simp only: cl closer)
  then have lazy: "lazy_until_ci (js ''</'' @ ?T @ js ''>'') (inner @ cl @ post) = Some (inner, post)"
    unfolding closer by (simp add: lazy_until_ci_skip [OF inner])
  have at: "plain_at ?T ?x = Some ([inner], post)"
    by (simp only: plain_at_def name option.case skip_tag_rest_attrs [OF attrs(2)] lazy prod.case)
  have "regex_exec (plain_at ?T) (pre @ ?x) = regex_exec (plain_at ?T) ?x"
    by (rule regex_exec_plain_skip [OF pre])
  also have "\<dots> = Some (match_array ?x ([inner], post))"
    by (simp add: at)
  finally have plain: "regex_exec (plain_at ?T) (pre @ ?x) = Some (match_array ?x ([inner], post))" .
  have nth: "match_array ?x ([inner], post) ! 1 = inner"
    by (simp add: match_array_def)
  have shape: "pre @ js ''<'' @ nm @ attrs @ js ''>'' @ inner @ cl @ post = pre @ ?x"
    by (simp add: js_def)
  show ?thesis
    by (simp only: extractTag_eq shape cdata plain nth option.case)
qed

lemma extractTag_trims_before_decoding:
  "extractTag (js ''<title>&#32;x&#32;</title>'') Title = Inr (Some (js '' x ''))"
  by (simp add: text_eval cong: prod.case_cong_weak)

subsection \<open>Field values and further example documents\<close>

lemma filter_retained:
  "filter retained xs = filter (\<lambda>i. item_title i \<noteq> [] \<or> item_link i \<noteq> []) xs"
  by (simp add: retained_def cong: filter_cong)

lemma parseRssItem_values:
  "\<exists>i. parseRssItem el = Inr i
     \<and> item_title i = or_str (projr (extractTag el Title)) []
     \<and> pubDate i = or_str (projr (extractTag el PubDate)) (or_str (projr (extractTag el DcDate)) [])
     \<and> item_link i = or_str (projr (extractTag el Link)) (or_str (projr (extractTag el Guid)) [])
     \<and> item_description i = or_str (projr (extractTag el Description)) []
     \<and> content i = or_str (projr (extractTag el ContentEncoded))
                      (or_str (projr (extractTag el Content)) [])"
proof -
  obtain t where t: "extractTag el Title = Inr t" using extractTag_Inr by blast
  obtain p where p: "extractTag el PubDate = Inr p" using extractTag_Inr by blast
  obtain dc where dc: "extractTag el DcDate = Inr dc" using extractTag_Inr by blast
  obtain l where l: "extractTag el Link = Inr l" using extractTag_Inr by blast
  obtain g where g: "extractTag el Guid = Inr g" using extractTag_Inr by blast
  obtain d where d: "extractTag el Description = Inr d" using extractTag_Inr by blast
  obtain ce where ce: "extractTag el ContentEncoded = Inr ce" using extractTag_Inr by blast
  obtain c where c: "extractTag el Content = Inr c" using extractTag_Inr by blast
  show ?thesis
    by (simp add: parseRssItem_def t p dc l g d ce c js_or_def truthy_def or_str_def
        split: option.splits)
qed

lemma parseAtomEntry_values:
  "\<exists>i. parseAtomEntry el = Inr i
     \<and> item_title i = or_str (projr (extractTag el Title)) []
     \<and> pubDate i = or_str (projr (extractTag el Published))
                      (or_str (projr (extractTag el Updated)) [])
     \<and> item_link i = or_str (projr (extractAtomLink el)) []
     \<and> item_description i = or_str (projr (extractTag el Summary))
                               (or_str (projr (extractTag el Content)) [])
     \<and> content i = or_str (projr (extractTag el Content)) []"
proof -
  obtain t where t: "extractTag el Title = Inr t" using extractTag_Inr by blast
  obtain p where p: "extractTag el Published = Inr p" using extractTag_Inr by blast
  obtain u where u: "extractTag el Updated = Inr u" using extractTag_Inr by blast
  obtain l where l: "extractAtomLink el = Inr l" using extractAtomLink_Inr by blast
  obtain s where s: "extractTag el Summary = Inr s" using extractTag_Inr by blast
  obtain c where c: "extractTag el Content = Inr c" using extractTag_Inr by blast
  show ?thesis
    by (simp add: parseAtomEntry_def t p u l s c js_or_def truthy_def or_str_def
        split: option.splits)
qed

lemma parseRssToJson_values:
  "\<exists>doc. parseRssToJson xml url = Inr doc
     \<and> doc_status doc = js ''ok'' \<and> feed_url (feed doc) = url
     \<and> feed_title (feed doc) = or_str (projr (extractTag xml Title)) []
     \<and> feed_link (feed doc) = or_str (projr (extractTag xml Link)) url
     \<and> feed_description (feed doc) = or_str (projr (extractTag xml Description))
                                       (or_str (projr (extractTag xml Subtitle)) [])"
proof -
  obtain t where t: "extractTag xml Title = Inr t" using extractTag_Inr by blast
  obtain l where l: "extractTag xml Link = Inr l" using extractTag_Inr by blast
  obtain d where d: "extractTag xml Description = Inr d" using extractTag_Inr by blast
  obtain s where s: "extractTag xml Subtitle = Inr s" using extractTag_Inr by blast
  show ?thesis
    by (simp add: parseRssToJson_def t l d s js_or_def truthy_def or_str_def
        atomItems_eq rssItems_eq split: option.splits)
qed

lemma mixed_feed_elements:
  "regex_match_all (element_at (js ''item'')) 0 mixed_feed
     = [js ''<item><title>A</title></item>'', js ''<item><description>x</description></item>'',
        js ''<item><link>http://b</link></item>'']"
  by (simp add: mixed_feed_def text_eval cong: prod.case_cong_weak)

lemma mixed_feed_not_atom: "\<not> isAtom mixed_feed"
  by (simp add: isAtom_def mixed_feed_def js_def)

lemma mixed_feed_parsed:
  "map (\<lambda>el. projr (parseRssItem el))
     [js ''<item><title>A</title></item>'', js ''<item><description>x</description></item>'',
      js ''<item><link>http://b</link></item>'']
   = [\<lparr> item_title = js ''A'', pubDate = [], item_link = [], item_description = [],
         content = [] \<rparr>,
      \<lparr> item_title = [], pubDate = [], item_link = [], item_description = js ''x'',
         content = [] \<rparr>,
      \<lparr> item_title = [], pubDate = [], item_link = js ''http://b'', item_description = [],
         content = [] \<rparr>]"
  by (simp add: parseRssItem_def text_eval cong: prod.case_cong_weak)




lemma untitled_feed_title: "extractTag untitled_feed Title = Inr (Some (js ''T1''))"
  by (simp add: untitled_feed_def text_eval cong: prod.case_cong_weak)

lemma atom_doc_marker:
  "str_includes atom_doc (js ''<feed'')" "str_includes atom_doc atom_ns"
  using isAtom_shape [of "[]" "js '' ''"
      "js ''><title>F</title><!-- <channel> --><item><title>R</title></item><entry><title>E</title><link href='http://e'/></entry></feed>''"]
  by (simp_all add: isAtom_def atom_doc_def)


section \<open>CORS headers\<close>

text \<open>
  C1 (the code does not do it). The claim asks for the four CORS headers on every
  response. The handler wraps the responses of the hit path, of the miss path and of the
  three error exits inside its \<^verbatim>\<open>try\<close> block (upstream error, 500, 502) with
  \<^verbatim>\<open>addCorsHeaders\<close>, and the preflight response sets the four headers itself; the three
  early exits are returned bare. At a GET request without \<^verbatim>\<open>url\<close> (400), at a GET request
  for a host outside the allow-list (403) and at a POST request (405) the response has
  no \<^verbatim>\<open>Access-Control-Allow-Origin\<close> header.
\<close>

theorem early_exits_lack_cors_headers:
  "(\<exists>r. result (fetch example_env empty_cache
            \<lparr> req_method = js ''GET'', url_param = None, format_param = None,
              origin_header = Some (js ''https://dashboard.example'') \<rparr>) = Inr r
        \<and> status r = 400 \<and> \<not> has_cors r
        \<and> header_get (headers r) ''Access-Control-Allow-Origin'' = None)
   \<and> (\<exists>r. result (fetch example_env empty_cache
            \<lparr> req_method = js ''GET'', url_param = Some (js ''https://evil.example.com/feed''),
              format_param = None, origin_header = Some (js ''https://dashboard.example'') \<rparr>) = Inr r
        \<and> status r = 403 \<and> \<not> has_cors r
        \<and> header_get (headers r) ''Access-Control-Allow-Origin'' = None)
   \<and> (\<exists>r. result (fetch example_env empty_cache
            \<lparr> req_method = js ''POST'', url_param = None, format_param = None,
              origin_header = Some (js ''https://dashboard.example'') \<rparr>) = Inr r
        \<and> status r = 405 \<and> \<not> has_cors r
        \<and> header_get (headers r) ''Access-Control-Allow-Origin'' = None)"
proof (intro conjI)
  let ?o = "Some (js ''https://dashboard.example'')"
  let ?get = "\<lparr> req_method = js ''GET'', url_param = None, format_param = None, origin_header = ?o \<rparr>"
  have "fetch example_env empty_cache ?get
      = \<lparr> result = Inr missing_url, cache_after = empty_cache, fetched = [] \<rparr>"
    by (rule fetch_400) (simp_all add: truthy_def)
  then show "\<exists>r. result (fetch example_env empty_cache ?get) = Inr r \<and> status r = 400
      \<and> \<not> has_cors r \<and> header_get (headers r) ''Access-Control-Allow-Origin'' = None"
    by (simp add: not_cors) (simp add: missing_url_def header_get_def)
next
  let ?o = "Some (js ''https://dashboard.example'')"
  let ?u = "js ''https://evil.example.com/feed''"
  let ?get = "\<lparr> req_method = js ''GET'', url_param = Some ?u, format_param = None, origin_header = ?o \<rparr>"
  have "fetch example_env empty_cache ?get
      = \<lparr> result = Inr domain_not_allowed, cache_after = empty_cache, fetched = [] \<rparr>"
    by (rule fetch_403 [where u = ?u]) (simp_all add: example_env_def evil_not_allowed, simp add: js_def)
  then show "\<exists>r. result (fetch example_env empty_cache ?get) = Inr r \<and> status r = 403
      \<and> \<not> has_cors r \<and> header_get (headers r) ''Access-Control-Allow-Origin'' = None"
    by (simp add: not_cors) (simp add: domain_not_allowed_def header_get_def)
next
  let ?o = "Some (js ''https://dashboard.example'')"
  let ?post = "\<lparr> req_method = js ''POST'', url_param = None, format_param = None, origin_header = ?o \<rparr>"
  have "fetch example_env empty_cache ?post
      = \<lparr> result = Inr method_not_allowed, cache_after = empty_cache, fetched = [] \<rparr>"
    by (rule fetch_405) (simp_all add: js_def)
  then show "\<exists>r. result (fetch example_env empty_cache ?post) = Inr r \<and> status r = 405
      \<and> \<not> has_cors r \<and> header_get (headers r) ''Access-Control-Allow-Origin'' = None"
    by (simp add: not_cors) (simp add: method_not_allowed_def header_get_def)
qed


section \<open>Method check, missing parameter, allow-list\<close>

text \<open>
  C2 (as stated, it fails). The claim has a HEAD request without the \<^verbatim>\<open>url\<close> parameter
  answered with 400, and never with 405. The handler's test is
  \<^verbatim>\<open>if (request.method !== 'GET')\<close> ("Only allow GET requests"), after the OPTIONS case:
  the HEAD request gets 405.
\<close>

theorem head_is_rejected_counterexample:
  "\<exists>r. result (fetch example_env empty_cache
           \<lparr> req_method = js ''HEAD'', url_param = None, format_param = None,
             origin_header = None \<rparr>) = Inr r
       \<and> status r = 405 \<and> status r \<noteq> 400"
proof -
  have "fetch example_env empty_cache
          \<lparr> req_method = js ''HEAD'', url_param = None, format_param = None, origin_header = None \<rparr>
        = \<lparr> result = Inr method_not_allowed, cache_after = empty_cache, fetched = [] \<rparr>"
    by (rule fetch_405) (simp_all add: js_neq)
  then show ?thesis by (simp add: method_not_allowed_def)
qed

text \<open>
  C2 (amended). Every method other than GET and OPTIONS, HEAD included, is answered with
  405 "Method not allowed". A GET request whose \<^verbatim>\<open>url\<close> parameter is absent or empty is
  answered with 400 and the usage body.
\<close>

theorem method_check_and_missing_url:
  "(req_method rq \<noteq> js ''GET'' \<and> req_method rq \<noteq> js ''OPTIONS''
      \<longrightarrow> result (fetch e c rq) = Inr method_not_allowed \<and> status method_not_allowed = 405)
   \<and> (req_method rq = js ''HEAD''
      \<longrightarrow> result (fetch e c rq) = Inr method_not_allowed)
   \<and> (req_method rq = js ''GET'' \<and> (url_param rq = None \<or> url_param rq = Some [])
      \<longrightarrow> result (fetch e c rq) = Inr missing_url \<and> status missing_url = 400
          \<and> body missing_url = Json (JObject
               [(''error'', JString (js ''Missing url parameter'')),
                (''usage'', JString
                   (js ''Add ?url=<encoded-url>&format=json to fetch and parse RSS feeds''))]))"
proof (intro conjI impI)
  assume "req_method rq \<noteq> js ''GET'' \<and> req_method rq \<noteq> js ''OPTIONS''"
  then show "result (fetch e c rq) = Inr method_not_allowed" by (simp add: fetch_405)
next
  show "status method_not_allowed = 405" by (simp add: method_not_allowed_def)
next
  assume "req_method rq = js ''HEAD''"
  then show "result (fetch e c rq) = Inr method_not_allowed" by (simp add: fetch_405 js_neq)
next
  assume "req_method rq = js ''GET'' \<and> (url_param rq = None \<or> url_param rq = Some [])"
  then have "req_method rq = js ''GET''" "\<not> truthy (url_param rq)"
    by (auto simp add: truthy_def)
  then show "result (fetch e c rq) = Inr missing_url" by (simp add: fetch_400)
next
  show "status missing_url = 400" by (simp add: missing_url_def)
next
  show "body missing_url = Json (JObject
               [(''error'', JString (js ''Missing url parameter'')),
                (''usage'', JString
                   (js ''Add ?url=<encoded-url>&format=json to fetch and parse RSS feeds''))])"
    by (simp add: missing_url_def)
qed

theorem method_check_and_missing_url_witness:
  "result (fetch example_env empty_cache
      \<lparr> req_method = js ''DELETE'', url_param = None, format_param = None,
        origin_header = None \<rparr>) = Inr method_not_allowed
   \<and> result (fetch example_env empty_cache
      \<lparr> req_method = js ''HEAD'', url_param = Some (js ''https://feeds.bbci.co.uk/news/rss.xml''),
        format_param = None, origin_header = None \<rparr>) = Inr method_not_allowed
   \<and> result (fetch example_env empty_cache
      \<lparr> req_method = js ''GET'', url_param = None, format_param = Some (js ''json''),
        origin_header = None \<rparr>) = Inr missing_url
   \<and> status missing_url = 400 \<and> status method_not_allowed = 405"
proof -
  have neq: "js ''DELETE'' \<noteq> js ''GET''" "js ''DELETE'' \<noteq> js ''OPTIONS''"
    by (simp_all add: js_def)
  show ?thesis
    using neq
      method_check_and_missing_url [of "\<lparr> req_method = js ''DELETE'', url_param = None,
        format_param = None, origin_header = None \<rparr>" example_env empty_cache]
      method_check_and_missing_url [of "\<lparr> req_method = js ''HEAD'',
        url_param = Some (js ''https://feeds.bbci.co.uk/news/rss.xml''),
        format_param = None, origin_header = None \<rparr>" example_env empty_cache]
      method_check_and_missing_url [of "\<lparr> req_method = js ''GET'', url_param = None,
        format_param = Some (js ''json''), origin_header = None \<rparr>" example_env empty_cache]
    by simp
qed

text \<open>
  C4. \<open>isAllowedOrigin\<close> is false when the URL does not parse, and otherwise true exactly
  when the host name of the parsed URL contains an entry of \<open>ALLOWED_ORIGINS\<close> as a
  contiguous run. A GET request whose target URL (a non-empty \<^verbatim>\<open>url\<close> parameter; the
  empty one counts as missing and is answered with 400) fails the test is answered with
  403, the body lists \<open>ALLOWED_ORIGINS\<close>, no origin fetch is issued and the cache is
  left as it was.
\<close>

theorem disallowed_origin_is_403_without_fetch:
  "isAllowedOrigin parse u =
     (case parse u of
        None \<Rightarrow> False
      | Some url \<Rightarrow>
          (\<exists>allowed p s. allowed \<in> set ALLOWED_ORIGINS \<and> hostname url = p @ allowed @ s))
   \<and> (req_method rq = js ''GET'' \<and> url_param rq = Some u \<and> u \<noteq> []
        \<and> \<not> isAllowedOrigin (new_URL e) u
      \<longrightarrow> (\<exists>r. result (fetch e c rq) = Inr r \<and> status r = 403
                \<and> body r = Json (JObject
                     [(''error'', JString (js ''Domain not allowed'')),
                      (''allowed'', JArray (map JString ALLOWED_ORIGINS))]))
          \<and> fetched (fetch e c rq) = [] \<and> cache_after (fetch e c rq) = c)"
proof (intro conjI impI)
  show "isAllowedOrigin parse u =
     (case parse u of
        None \<Rightarrow> False
      | Some url \<Rightarrow>
          (\<exists>allowed p s. allowed \<in> set ALLOWED_ORIGINS \<and> hostname url = p @ allowed @ s))"
    by (rule isAllowedOrigin_iff)
next
  assume a: "req_method rq = js ''GET'' \<and> url_param rq = Some u \<and> u \<noteq> []
        \<and> \<not> isAllowedOrigin (new_URL e) u"
  then have eq: "fetch e c rq
      = \<lparr> result = Inr domain_not_allowed, cache_after = c, fetched = [] \<rparr>"
    by (simp add: fetch_403)
  show "\<exists>r. result (fetch e c rq) = Inr r \<and> status r = 403
                \<and> body r = Json (JObject
                     [(''error'', JString (js ''Domain not allowed'')),
                      (''allowed'', JArray (map JString ALLOWED_ORIGINS))])"
    unfolding eq by (simp add: domain_not_allowed_def)
  show "fetched (fetch e c rq) = []" unfolding eq by simp
  show "cache_after (fetch e c rq) = c" unfolding eq by simp
qed

theorem disallowed_origin_is_403_without_fetch_witness:
  "\<not> isAllowedOrigin example_parser (js ''https://evil.example.com/feed'')
   \<and> \<not> isAllowedOrigin example_parser (js ''not a url'')
   \<and> (\<exists>r. result (fetch example_env empty_cache
            \<lparr> req_method = js ''GET'', url_param = Some (js ''https://evil.example.com/feed''),
              format_param = Some (js ''json''), origin_header = None \<rparr>) = Inr r
         \<and> status r = 403)
   \<and> fetched (fetch example_env empty_cache
            \<lparr> req_method = js ''GET'', url_param = Some (js ''https://evil.example.com/feed''),
              format_param = Some (js ''json''), origin_header = None \<rparr>) = []
   \<and> (\<exists>r. result (fetch example_env empty_cache
            \<lparr> req_method = js ''GET'', url_param = Some (js ''not a url''),
              format_param = None, origin_header = None \<rparr>) = Inr r
         \<and> status r = 403)"
proof -
  let ?evil = "js ''https://evil.example.com/feed''"
  let ?junk = "js ''not a url''"
  let ?rq1 = "\<lparr> req_method = js ''GET'', url_param = Some ?evil,
                format_param = Some (js ''json''), origin_header = None \<rparr>"
  let ?rq2 = "\<lparr> req_method = js ''GET'', url_param = Some ?junk,
                format_param = None, origin_header = None \<rparr>"
  have nonempty: "?evil \<noteq> []" "?junk \<noteq> []"
    by (simp_all add: js_def)
  have unparsed: "example_parser ?junk = None"
    by (simp add: example_parser_def js_def)
  have junk: "\<not> isAllowedOrigin example_parser ?junk"
    using disallowed_origin_is_403_without_fetch [of example_parser ?junk, THEN conjunct1]
    by (simp add: unparsed)
  have parser: "new_URL example_env = example_parser"
    by (simp add: example_env_def)
  have one: "(\<exists>r. result (fetch example_env empty_cache ?rq1) = Inr r \<and> status r = 403
                \<and> body r = Json (JObject
                     [(''error'', JString (js ''Domain not allowed'')),
                      (''allowed'', JArray (map JString ALLOWED_ORIGINS))]))
          \<and> fetched (fetch example_env empty_cache ?rq1) = []
          \<and> cache_after (fetch example_env empty_cache ?rq1) = empty_cache"
    by (rule disallowed_origin_is_403_without_fetch
          [of example_parser ?evil ?rq1 example_env empty_cache, THEN conjunct2, rule_format])
       (simp add: nonempty parser evil_not_allowed)
  have two: "(\<exists>r. result (fetch example_env empty_cache ?rq2) = Inr r \<and> status r = 403
                \<and> body r = Json (JObject
                     [(''error'', JString (js ''Domain not allowed'')),
                      (''allowed'', JArray (map JString ALLOWED_ORIGINS))]))
          \<and> fetched (fetch example_env empty_cache ?rq2) = []
          \<and> cache_after (fetch example_env empty_cache ?rq2) = empty_cache"
    by (rule disallowed_origin_is_403_without_fetch
          [of example_parser ?junk ?rq2 example_env empty_cache, THEN conjunct2, rule_format])
       (simp add: nonempty parser junk)
  from one two junk evil_not_allowed show ?thesis by blast
qed

section \<open>Cache key\<close>

text \<open>
  C9. The cache key is not injective in (target URL, format): the raw-format request for
  a URL that ends in \<open>__json\<close> and the JSON-format request for that URL without the
  suffix have the same key. So when the JSON-format request for \<open>u\<close> was a miss (and
  stored its body), the raw-format request for \<open>u\<close> followed by \<open>__json\<close>, when the
  allow-list admits it, is a cache hit and is served that stored body.
\<close>

theorem cache_key_collision:
  "cacheKeyUrl (u @ js ''__json'') False = cacheKeyUrl u True
   \<and> (u @ js ''__json'', False) \<noteq> (u, True)
   \<and> (result (fetch e c \<lparr> req_method = js ''GET'', url_param = Some u,
                  format_param = Some (js ''json''), origin_header = o1 \<rparr>) = Inr r1
        \<and> header_get (headers r1) ''X-Cache'' = Some (js ''MISS'')
        \<and> isAllowedOrigin (new_URL e) (u @ js ''__json'')
      \<longrightarrow> (\<exists>r2. result (fetch e
                  (cache_after (fetch e c \<lparr> req_method = js ''GET'', url_param = Some u,
                     format_param = Some (js ''json''), origin_header = o1 \<rparr>))
                  \<lparr> req_method = js ''GET'', url_param = Some (u @ js ''__json''),
                    format_param = None, origin_header = o2 \<rparr>) = Inr r2
               \<and> header_get (headers r2) ''X-Cache'' = Some (js ''HIT'')
               \<and> body r2 = body r1))"
proof (intro conjI impI)
  show "cacheKeyUrl (u @ js ''__json'') False = cacheKeyUrl u True"
    by (simp add: cacheKeyUrl_def)
  show "(u @ js ''__json'', False) \<noteq> (u, True)"
    by simp
next
  let ?rq1 = "\<lparr> req_method = js ''GET'', url_param = Some u,
                format_param = Some (js ''json''), origin_header = o1 \<rparr>"
  let ?rq2 = "\<lparr> req_method = js ''GET'', url_param = Some (u @ js ''__json''),
                format_param = None, origin_header = o2 \<rparr>"
  let ?c' = "cache_after (fetch e c ?rq1)"
  assume a: "result (fetch e c ?rq1) = Inr r1
        \<and> header_get (headers r1) ''X-Cache'' = Some (js ''MISS'')
        \<and> isAllowedOrigin (new_URL e) (u @ js ''__json'')"
  from fetch_miss_stores [of e c ?rq1 r1] a
  obtain key st where key: "new_Request e (cacheKeyUrl u True) = Inr key"
    and st: "?c' key = Some st" "body st = body r1"
    by auto
  have key2: "new_Request e (cacheKeyUrl (u @ js ''__json'') False) = Inr key"
    using key by (simp add: cacheKeyUrl_def)
  have ne: "u @ js ''__json'' \<noteq> []"
    by (simp add: js_def)
  have "fetch e ?c' ?rq2
      = \<lparr> result = Inr (cache_hit st (or_str o2 (js ''*''))), cache_after = ?c', fetched = [] \<rparr>"
    using a st(1) key2 fetch_allowed [of ?rq2 "u @ js ''__json''" e ?c'] ne
    by simp
  then show "\<exists>r2. result (fetch e ?c' ?rq2) = Inr r2
               \<and> header_get (headers r2) ''X-Cache'' = Some (js ''HIT'')
               \<and> body r2 = body r1"
    using st(2) by (simp add: cache_hit_def Let_def header_get_set body_addCors)
qed

theorem cache_key_collision_witness:
  "\<exists>r1 r2.
      result (fetch example_env empty_cache
        \<lparr> req_method = js ''GET'', url_param = Some (js ''https://feeds.bbci.co.uk/news/rss.xml''),
          format_param = Some (js ''json''), origin_header = None \<rparr>) = Inr r1
    \<and> header_get (headers r1) ''X-Cache'' = Some (js ''MISS'')
    \<and> result (fetch example_env
          (cache_after (fetch example_env empty_cache
            \<lparr> req_method = js ''GET'', url_param = Some (js ''https://feeds.bbci.co.uk/news/rss.xml''),
              format_param = Some (js ''json''), origin_header = None \<rparr>))
          \<lparr> req_method = js ''GET'',
            url_param = Some (js ''https://feeds.bbci.co.uk/news/rss.xml'' @ js ''__json''),
            format_param = None, origin_header = None \<rparr>) = Inr r2
    \<and> header_get (headers r2) ''X-Cache'' = Some (js ''HIT'')
    \<and> body r2 = body r1 \<and> (\<exists>j. body r2 = Json j)"
proof -
  let ?u = "js ''https://feeds.bbci.co.uk/news/rss.xml''"
  let ?rq1 = "\<lparr> req_method = js ''GET'', url_param = Some ?u,
                format_param = Some (js ''json''), origin_header = None \<rparr>"
  have app: "?u @ js ''__json'' = js ''https://feeds.bbci.co.uk/news/rss.xml__json''"
    by (simp add: js_def)
  have ne: "?u \<noteq> []" by (simp add: js_def)
  have parser: "new_URL example_env = example_parser" by (simp add: example_env_def)
  have p1: "example_parser ?u = Some \<lparr> hostname = js ''feeds.bbci.co.uk'' \<rparr>"
    by (simp add: example_parser_def)
  have p2: "new_Request example_env (cacheKeyUrl ?u True) = Inr (?u @ js ''__json'')"
    by (simp add: cacheKeyUrl_def app example_env_def example_request_def example_parser_def)
  have up: "upstream example_env ?u ttl
      = Inr \<lparr> up_status = 200, up_statusText = js ''OK'',
                up_contentType = Some (js ''application/rss+xml''),
                up_text = Inr example_feed \<rparr>" for ttl
    by (simp add: example_env_def example_upstream_def)
  have feed: "isRssFeed (or_str (Some (js ''application/rss+xml'')) []) example_feed"
    by (simp add: isRssFeed_def or_str_def js_def)
  have eq: "fetch example_env empty_cache ?rq1
      = fetch_origin example_env empty_cache ?u True (js ''*'') (?u @ js ''__json'')"
    using fetch_allowed [of ?rq1 ?u example_env empty_cache] ne bbc_allowed(1) p2
    by (simp add: parser empty_cache_def or_str_def)
  from fetch_origin_ok [of example_env ?u _ _ "example_feed" empty_cache True "js ''*''" "?u @ js ''__json''",
      OF _ up]
  obtain r1 where r1: "result (fetch example_env empty_cache ?rq1) = Inr r1"
    "header_get (headers r1) ''X-Cache'' = Some (js ''MISS'')" "\<exists>j. body r1 = Json j"
    unfolding eq using p1 feed by (auto simp add: parser)
  have allowed: "isAllowedOrigin (new_URL example_env) (?u @ js ''__json'')"
    using bbc_allowed(2) by (simp add: parser app)
  from cache_key_collision [of ?u example_env empty_cache None r1 None] r1(1,2) allowed
  obtain r2 where "result (fetch example_env (cache_after (fetch example_env empty_cache ?rq1))
          \<lparr> req_method = js ''GET'', url_param = Some (?u @ js ''__json''),
            format_param = None, origin_header = None \<rparr>) = Inr r2"
    "header_get (headers r2) ''X-Cache'' = Some (js ''HIT'')" "body r2 = body r1"
    by blast
  with r1 show ?thesis by auto
qed

section \<open>Feed normalizer: results\<close>

text \<open>
  C5. Neither element parser throws; the title of the object it builds is the first
  non-empty text \<open>extractTag\<close> finds for \<^verbatim>\<open>title\<close>, its link the first non-empty one for
  \<^verbatim>\<open>link\<close>, \<^verbatim>\<open>guid\<close> (RSS/RDF) or the one of \<open>extractAtomLink\<close> (Atom), and the empty string
  when there is none. \<open>parseRssToJson\<close> returns a document whose items are, in order, the
  objects with a non-empty title or a non-empty link among those built from the first 20
  matches of the element expression (\<^verbatim>\<open>entry\<close> for Atom, \<^verbatim>\<open>item\<close> otherwise); so there are
  at most 20. When the feed has 35 elements and each of them has a non-empty title or
  link, the document has exactly 20 items: those of the first 20 elements, in source order.
\<close>

theorem normalizer_keeps_first_twenty_elements:
  "(\<forall>el. \<exists>i. parseAtomEntry el = Inr i
        \<and> item_title i = or_str (projr (extractTag el Title)) []
        \<and> item_link i = or_str (projr (extractAtomLink el)) [])
   \<and> (\<forall>el. \<exists>i. parseRssItem el = Inr i
        \<and> item_title i = or_str (projr (extractTag el Title)) []
        \<and> item_link i = or_str (projr (extractTag el Link))
                           (or_str (projr (extractTag el Guid)) []))
   \<and> (\<exists>doc. parseRssToJson xml url = Inr doc
        \<and> (isAtom xml \<longrightarrow>
              items doc = filter (\<lambda>i. item_title i \<noteq> [] \<or> item_link i \<noteq> [])
                (map (\<lambda>el. projr (parseAtomEntry el))
                  (take 20 (regex_match_all (element_at (js ''entry'')) 0 xml))))
        \<and> (\<not> isAtom xml \<longrightarrow>
              items doc = filter (\<lambda>i. item_title i \<noteq> [] \<or> item_link i \<noteq> [])
                (map (\<lambda>el. projr (parseRssItem el))
                  (take 20 (regex_match_all (element_at (js ''item'')) 0 xml))))
        \<and> length (items doc) \<le> 20
        \<and> (isAtom xml \<and> length (regex_match_all (element_at (js ''entry'')) 0 xml) = 35
             \<and> list_all (\<lambda>el. item_title (projr (parseAtomEntry el)) \<noteq> []
                               \<or> item_link (projr (parseAtomEntry el)) \<noteq> [])
                  (regex_match_all (element_at (js ''entry'')) 0 xml)
           \<longrightarrow> length (items doc) = 20
               \<and> items doc = map (\<lambda>el. projr (parseAtomEntry el))
                   (take 20 (regex_match_all (element_at (js ''entry'')) 0 xml)))
        \<and> (\<not> isAtom xml \<and> length (regex_match_all (element_at (js ''item'')) 0 xml) = 35
             \<and> list_all (\<lambda>el. item_title (projr (parseRssItem el)) \<noteq> []
                               \<or> item_link (projr (parseRssItem el)) \<noteq> [])
                  (regex_match_all (element_at (js ''item'')) 0 xml)
           \<longrightarrow> length (items doc) = 20
               \<and> items doc = map (\<lambda>el. projr (parseRssItem el))
                   (take 20 (regex_match_all (element_at (js ''item'')) 0 xml))))"
proof (intro conjI allI)
  fix el
  show "\<exists>i. parseAtomEntry el = Inr i
        \<and> item_title i = or_str (projr (extractTag el Title)) []
        \<and> item_link i = or_str (projr (extractAtomLink el)) []"
    using parseAtomEntry_values [of el] by blast
  show "\<exists>i. parseRssItem el = Inr i
        \<and> item_title i = or_str (projr (extractTag el Title)) []
        \<and> item_link i = or_str (projr (extractTag el Link))
                           (or_str (projr (extractTag el Guid)) [])"
    using parseRssItem_values [of el] by blast
next
  obtain doc where doc: "parseRssToJson xml url = Inr doc"
    using parseRssToJson_Inr by blast
  let ?entries = "regex_match_all (element_at (js ''entry'')) 0 xml"
  let ?items = "regex_match_all (element_at (js ''item'')) 0 xml"
  let ?atom = "\<lambda>el. projr (parseAtomEntry el)"
  let ?rss = "\<lambda>el. projr (parseRssItem el)"
  let ?kept = "\<lambda>i. item_title i \<noteq> [] \<or> item_link i \<noteq> []"
  have atom: "items doc = filter ?kept (map ?atom (take 20 ?entries))" if "isAtom xml"
    using parseRssToJson_items [OF doc] that by (simp add: atomItems_eq filter_retained)
  have rss: "items doc = filter ?kept (map ?rss (take 20 ?items))" if "\<not> isAtom xml"
    using parseRssToJson_items [OF doc] that by (simp add: rssItems_eq filter_retained)
  have len: "length (items doc) \<le> 20"
  proof (cases "isAtom xml")
    case True
    have "length (filter ?kept (map ?atom (take 20 ?entries))) \<le> length (map ?atom (take 20 ?entries))"
      by (rule length_filter_le)
    with atom [OF True] show ?thesis by simp
  next
    case False
    have "length (filter ?kept (map ?rss (take 20 ?items))) \<le> length (map ?rss (take 20 ?items))"
      by (rule length_filter_le)
    with rss [OF False] show ?thesis by simp
  qed
  have all_kept: "filter ?kept (map f (take 20 els)) = map f (take 20 els)"
    if "list_all (\<lambda>el. ?kept (f el)) els" for f and els :: "jstring list"
  proof -
    have "\<forall>x \<in> set (map f (take 20 els)). ?kept x"
      using that set_take_subset [of 20 els] by (auto simp add: list_all_iff)
    then show ?thesis by (simp only: filter_True)
  qed
  have atom35: "length (items doc) = 20 \<and> items doc = map ?atom (take 20 ?entries)"
    if "isAtom xml \<and> length ?entries = 35 \<and> list_all (\<lambda>el. ?kept (?atom el)) ?entries"
    using that atom all_kept [of ?atom ?entries] by simp
  have rss35: "length (items doc) = 20 \<and> items doc = map ?rss (take 20 ?items)"
    if "\<not> isAtom xml \<and> length ?items = 35 \<and> list_all (\<lambda>el. ?kept (?rss el)) ?items"
    using that rss all_kept [of ?rss ?items] by simp
  from doc atom rss len atom35 rss35
  show "\<exists>doc. parseRssToJson xml url = Inr doc
        \<and> (isAtom xml \<longrightarrow> items doc = filter ?kept (map ?atom (take 20 ?entries)))
        \<and> (\<not> isAtom xml \<longrightarrow> items doc = filter ?kept (map ?rss (take 20 ?items)))
        \<and> length (items doc) \<le> 20
        \<and> (isAtom xml \<and> length ?entries = 35 \<and> list_all (\<lambda>el. ?kept (?atom el)) ?entries
           \<longrightarrow> length (items doc) = 20 \<and> items doc = map ?atom (take 20 ?entries))
        \<and> (\<not> isAtom xml \<and> length ?items = 35 \<and> list_all (\<lambda>el. ?kept (?rss el)) ?items
           \<longrightarrow> length (items doc) = 20 \<and> items doc = map ?rss (take 20 ?items))"
    by blast
qed

theorem normalizer_keeps_first_twenty_elements_witness:
  "length (regex_match_all (element_at (js ''item'')) 0 feed35) = 35
   \<and> (\<exists>doc. parseRssToJson feed35 (js ''https://feeds.bbci.co.uk/news/rss.xml'') = Inr doc
         \<and> length (items doc) = 20
         \<and> map item_title (items doc) = take 20 titles35)
   \<and> length (regex_match_all (element_at (js ''item'')) 0 mixed_feed) = 3
   \<and> (\<exists>doc. parseRssToJson mixed_feed (js ''https://feeds.bbci.co.uk/news/rss.xml'') = Inr doc
         \<and> items doc =
             [\<lparr> item_title = js ''A'', pubDate = [], item_link = [], item_description = [],
                 content = [] \<rparr>,
              \<lparr> item_title = [], pubDate = [], item_link = js ''http://b'',
                 item_description = [], content = [] \<rparr>])
   \<and> (\<exists>doc. parseRssToJson atom_doc (js ''https://feeds.bbci.co.uk/news/rss.xml'') = Inr doc
         \<and> items doc =
             [\<lparr> item_title = js ''E'', pubDate = [], item_link = js ''http://e'',
                 item_description = [], content = [] \<rparr>])"
proof -
  let ?u = "js ''https://feeds.bbci.co.uk/news/rss.xml''"
  let ?items = "regex_match_all (element_at (js ''item'')) 0 feed35"
  let ?rss = "\<lambda>el. projr (parseRssItem el)"
  let ?atom = "\<lambda>el. projr (parseAtomEntry el)"
  let ?kept = "\<lambda>i. item_title i \<noteq> [] \<or> item_link i \<noteq> []"
  let ?mk = "\<lambda>t. \<lparr> item_title = t, pubDate = [], item_link = [], item_description = [],
                    content = [] \<rparr>"
  note th = normalizer_keeps_first_twenty_elements
  \<comment> \<open>35 items, all with a title\<close>
  have len: "length ?items = 35"
    by (simp add: feed35_elements length_titles35)
  have parsed: "map ?rss ?items = map ?mk titles35"
    by (simp only: feed35_elements feed35_items)
  have kept: "list_all (\<lambda>el. ?kept (?rss el)) ?items"
  proof -
    have "list_all ?kept (map ?mk titles35)"
      using titles35_plain by (simp add: list_all_iff)
    then have "list_all ?kept (map ?rss ?items)" by (simp only: parsed)
    then show ?thesis by (simp add: list_all_iff)
  qed
  from th [of feed35 ?u, THEN conjunct2, THEN conjunct2] feed35_not_atom len kept
  obtain doc where doc: "parseRssToJson feed35 ?u = Inr doc"
    "length (items doc) = 20" "items doc = map ?rss (take 20 ?items)"
    by blast
  have "map item_title (items doc) = map item_title (take 20 (map ?rss ?items))"
    by (simp add: doc(3) take_map)
  also have "\<dots> = take 20 titles35"
    by (simp only: parsed) (simp add: take_map o_def)
  finally have one: "\<exists>doc. parseRssToJson feed35 ?u = Inr doc \<and> length (items doc) = 20
         \<and> map item_title (items doc) = take 20 titles35"
    using doc by blast
  \<comment> \<open>three items, one of them without title and link\<close>
  have len3: "length (regex_match_all (element_at (js ''item'')) 0 mixed_feed) = 3"
    by (simp add: mixed_feed_elements)
  from th [of mixed_feed ?u, THEN conjunct2, THEN conjunct2] mixed_feed_not_atom
  obtain d2 where d2: "parseRssToJson mixed_feed ?u = Inr d2"
    "items d2 = filter ?kept (map ?rss
        (take 20 (regex_match_all (element_at (js ''item'')) 0 mixed_feed)))"
    by blast
  have i2: "items d2 =
             [\<lparr> item_title = js ''A'', pubDate = [], item_link = [], item_description = [],
                 content = [] \<rparr>,
              \<lparr> item_title = [], pubDate = [], item_link = js ''http://b'',
                 item_description = [], content = [] \<rparr>]"
  proof -
    have "take 20 (regex_match_all (element_at (js ''item'')) 0 mixed_feed)
        = regex_match_all (element_at (js ''item'')) 0 mixed_feed"
      by (simp add: len3)
    then have "items d2 = filter ?kept (map ?rss
        [js ''<item><title>A</title></item>'', js ''<item><description>x</description></item>'',
         js ''<item><link>http://b</link></item>''])"
      by (simp only: d2(2) mixed_feed_elements)
    then show ?thesis
      by (simp only: mixed_feed_parsed) (simp add: js_def)
  qed
  have two: "\<exists>doc. parseRssToJson mixed_feed ?u = Inr doc
         \<and> items doc =
             [\<lparr> item_title = js ''A'', pubDate = [], item_link = [], item_description = [],
                 content = [] \<rparr>,
              \<lparr> item_title = [], pubDate = [], item_link = js ''http://b'',
                 item_description = [], content = [] \<rparr>]"
    by (rule exI [of _ d2]) (simp only: d2(1) i2)
  \<comment> \<open>an Atom document\<close>
  have is_atom: "isAtom atom_doc"
    by (simp add: isAtom_def atom_doc_marker)
  from th [of atom_doc ?u, THEN conjunct2, THEN conjunct2] is_atom
  obtain d3 where d3: "parseRssToJson atom_doc ?u = Inr d3"
    "items d3 = filter ?kept (map ?atom
        (take 20 (regex_match_all (element_at (js ''entry'')) 0 atom_doc)))"
    by blast
  have "Inr (items d3) = atomItems atom_doc"
    by (simp only: d3(2) atomItems_eq filter_retained)
  then have i3: "items d3 =
             [\<lparr> item_title = js ''E'', pubDate = [], item_link = js ''http://e'',
                 item_description = [], content = [] \<rparr>]"
    by (simp add: atomItems_atom_doc)
  have three: "\<exists>doc. parseRssToJson atom_doc ?u = Inr doc
         \<and> items doc =
             [\<lparr> item_title = js ''E'', pubDate = [], item_link = js ''http://e'',
                 item_description = [], content = [] \<rparr>]"
    by (rule exI [of _ d3]) (simp only: d3(1) i3)
  from len one len3 two three show ?thesis by (intro conjI)
qed

text \<open>
  C6. \<open>extractTag\<close> never throws; it returns the first group of the CDATA expression
  when that expression matches anywhere in the text, otherwise the first group of the
  plain expression, otherwise \<^verbatim>\<open>null\<close>; the group is trimmed and then decoded
  (\<^verbatim>\<open>decodeHtmlEntities(m[1].trim())\<close>: white space written as an entity is decoded after
  the trim and stays). The expressions match up to ASCII case: for every tag of the worker,
  an element \<^verbatim>\<open><TAG attrs><![CDATA[inner]]></TAG>\<close> that is the first markup of the text,
  in any mix of upper and lower case and with \<open>inner\<close> free of \<^verbatim>\<open>]\<close>, yields the trimmed and
  decoded \<open>inner\<close>, and so does a plain element \<^verbatim>\<open><TAG attrs>inner</TAG>\<close> that is the only
  markup of the text; a text without \<^verbatim>\<open><\<close> yields \<^verbatim>\<open>null\<close>. Decoding takes \<^verbatim>\<open>&amp;\<close> to
  \<^verbatim>\<open>&\<close>, \<^verbatim>\<open>&lt;\<close> to \<^verbatim>\<open><\<close>, \<^verbatim>\<open>&gt;\<close> to \<^verbatim>\<open>>\<close>, \<^verbatim>\<open>&quot;\<close> to the double quote (34), \<^verbatim>\<open>&#39;\<close> to
  the apostrophe (39) and \<^verbatim>\<open>&#65;\<close> to \<^verbatim>\<open>A\<close>, and a CDATA title holding the six entities
  comes out as the six characters. A CDATA element wins over a plain element that stands
  before it.
\<close>

theorem extractTag_cdata_then_plain_decoded:
  "extractTag xml tag =
     Inr (case regex_exec (cdata_at (tag_name tag)) xml of
            Some m \<Rightarrow> Some (decodeHtmlEntities (trim (m ! 1)))
          | None \<Rightarrow>
              (case regex_exec (plain_at (tag_name tag)) xml of
                 Some m \<Rightarrow> Some (decodeHtmlEntities (trim (m ! 1)))
               | None \<Rightarrow> None))
   \<and> (60 \<notin> set pre \<and> map lowerc nm = map lowerc (tag_name tag) \<and> 62 \<notin> set attrs
        \<and> map lowerc cd = map lowerc (js ''<![CDATA['') \<and> 93 \<notin> set inner
        \<and> map lowerc cl = map lowerc (js '']]></'' @ tag_name tag @ js ''>'')
      \<longrightarrow> extractTag (pre @ js ''<'' @ nm @ attrs @ js ''>'' @ cd @ inner @ cl @ post) tag
            = Inr (Some (decodeHtmlEntities (trim inner))))
   \<and> (60 \<notin> set pre \<and> map lowerc nm = map lowerc (tag_name tag)
        \<and> 60 \<notin> set attrs \<and> 62 \<notin> set attrs \<and> 60 \<notin> set inner
        \<and> map lowerc cl = map lowerc (js ''</'' @ tag_name tag @ js ''>'') \<and> 60 \<notin> set post
      \<longrightarrow> extractTag (pre @ js ''<'' @ nm @ attrs @ js ''>'' @ inner @ cl @ post) tag
            = Inr (Some (decodeHtmlEntities (trim inner))))
   \<and> (60 \<notin> set xml \<longrightarrow> extractTag xml tag = Inr None)
   \<and> (match_lit_ci p t = Some r \<longleftrightarrow> (\<exists>m. t = m @ r \<and> map lowerc m = map lowerc p))
   \<and> decodeHtmlEntities (js ''&amp;'') = js ''&''
   \<and> decodeHtmlEntities (js ''&lt;'') = js ''<''
   \<and> decodeHtmlEntities (js ''&gt;'') = js ''>''
   \<and> decodeHtmlEntities (js ''&quot;'') = [34]
   \<and> decodeHtmlEntities (js ''&#39;'') = [39]
   \<and> decodeHtmlEntities (js ''&#65;'') = js ''A''
   \<and> extractTag (js ''<title><![CDATA[&amp;&lt;&gt;&quot;&#39;&#65;]]></title>'') Title
       = Inr (Some [38, 60, 62, 34, 39, 65])
   \<and> extractTag (js ''<TITLE><![cdata[ News ]]></Title>'') Title
       = Inr (Some (js ''News''))
   \<and> extractTag (js ''<title>plain</title><title><![CDATA[cdata]]></title>'') Title
       = Inr (Some (js ''cdata''))
   \<and> extractTag (js ''<Title lang=en> a &amp; b </TITLE>'') Title = Inr (Some (js ''a & b''))
   \<and> extractTag (js ''<title>&#32;x&#32;</title>'') Title = Inr (Some (js '' x ''))"
proof (intro conjI impI)
  show "extractTag xml tag =
     Inr (case regex_exec (cdata_at (tag_name tag)) xml of
            Some m \<Rightarrow> Some (decodeHtmlEntities (trim (m ! 1)))
          | None \<Rightarrow>
              (case regex_exec (plain_at (tag_name tag)) xml of
                 Some m \<Rightarrow> Some (decodeHtmlEntities (trim (m ! 1)))
               | None \<Rightarrow> None))"
    by (rule extractTag_eq)
  show "match_lit_ci p t = Some r \<longleftrightarrow> (\<exists>m. t = m @ r \<and> map lowerc m = map lowerc p)"
    by (rule match_lit_ci_iff)
next
  assume "60 \<notin> set pre \<and> map lowerc nm = map lowerc (tag_name tag) \<and> 62 \<notin> set attrs
        \<and> map lowerc cd = map lowerc (js ''<![CDATA['') \<and> 93 \<notin> set inner
        \<and> map lowerc cl = map lowerc (js '']]></'' @ tag_name tag @ js ''>'')"
  then show "extractTag (pre @ js ''<'' @ nm @ attrs @ js ''>'' @ cd @ inner @ cl @ post) tag
            = Inr (Some (decodeHtmlEntities (trim inner)))"
    by (intro extractTag_cdata_element) simp_all
next
  assume "60 \<notin> set pre \<and> map lowerc nm = map lowerc (tag_name tag)
        \<and> 60 \<notin> set attrs \<and> 62 \<notin> set attrs \<and> 60 \<notin> set inner
        \<and> map lowerc cl = map lowerc (js ''</'' @ tag_name tag @ js ''>'') \<and> 60 \<notin> set post"
  then show "extractTag (pre @ js ''<'' @ nm @ attrs @ js ''>'' @ inner @ cl @ post) tag
            = Inr (Some (decodeHtmlEntities (trim inner)))"
    by (intro extractTag_plain_element) simp_all
next
  assume "60 \<notin> set xml"
  then show "extractTag xml tag = Inr None" by (rule extractTag_no_markup)
qed (rule decode_named extractTag_cdata_entities extractTag_ignores_case
      extractTag_prefers_cdata extractTag_plain_text extractTag_trims_before_decoding)+

theorem extractTag_cdata_then_plain_decoded_witness:
  "extractTag (js ''  <Content:Encoded type=html><![cdata[ a &amp; b ]]></content:ENCODED><x>'')
       ContentEncoded = Inr (Some (js ''a & b''))
   \<and> extractTag (js ''  <DC:Date x=1> 2024-01-01 </dc:date> '') DcDate
       = Inr (Some (js ''2024-01-01''))
   \<and> extractTag (js ''no markup'') Guid = Inr None"
proof -
  have cdata: "60 \<notin> set (js ''  '')
      \<and> map lowerc (js ''Content:Encoded'') = map lowerc (tag_name ContentEncoded)
      \<and> 62 \<notin> set (js '' type=html'')
      \<and> map lowerc (js ''<![cdata['') = map lowerc (js ''<![CDATA['')
      \<and> 93 \<notin> set (js '' a &amp; b '')
      \<and> map lowerc (js '']]></content:ENCODED>'')
          = map lowerc (js '']]></'' @ tag_name ContentEncoded @ js ''>'')"
    by (simp add: js_def lowerc_def)
  have plain: "60 \<notin> set (js ''  '') \<and> map lowerc (js ''DC:Date'') = map lowerc (tag_name DcDate)
      \<and> 60 \<notin> set (js '' x=1'') \<and> 62 \<notin> set (js '' x=1'') \<and> 60 \<notin> set (js '' 2024-01-01 '')
      \<and> map lowerc (js ''</dc:date>'') = map lowerc (js ''</'' @ tag_name DcDate @ js ''>'')
      \<and> 60 \<notin> set (js '' '')"
    by (simp add: js_def lowerc_def)
  have none: "60 \<notin> set (js ''no markup'')"
    by (simp add: js_def)
  have d1: "decodeHtmlEntities (trim (js '' a &amp; b '')) = js ''a & b''"
    by (simp add: text_eval cong: prod.case_cong_weak)
  have d2: "decodeHtmlEntities (trim (js '' 2024-01-01 '')) = js ''2024-01-01''"
    by (simp add: text_eval cong: prod.case_cong_weak)
  have s1: "js ''  <Content:Encoded type=html><![cdata[ a &amp; b ]]></content:ENCODED><x>''
      = js ''  '' @ js ''<'' @ js ''Content:Encoded'' @ js '' type=html'' @ js ''>''
        @ js ''<![cdata['' @ js '' a &amp; b '' @ js '']]></content:ENCODED>'' @ js ''<x>''"
    by (simp add: js_def)
  have s2: "js ''  <DC:Date x=1> 2024-01-01 </dc:date> ''
      = js ''  '' @ js ''<'' @ js ''DC:Date'' @ js '' x=1'' @ js ''>''
        @ js '' 2024-01-01 '' @ js ''</dc:date>'' @ js '' ''"
    by (simp add: js_def)
  note th = extractTag_cdata_then_plain_decoded
  from th [where tag = ContentEncoded and pre = "js ''  ''" and nm = "js ''Content:Encoded''"
      and attrs = "js '' type=html''" and cd = "js ''<![cdata[''" and inner = "js '' a &amp; b ''"
      and cl = "js '']]></content:ENCODED>''" and post = "js ''<x>''",
      THEN conjunct2, THEN conjunct1, rule_format, OF cdata]
  have one: "extractTag (js ''  <Content:Encoded type=html><![cdata[ a &amp; b ]]></content:ENCODED><x>'')
       ContentEncoded = Inr (Some (js ''a & b''))"
    by (simp only: s1 d1)
  from th [where tag = DcDate and pre = "js ''  ''" and nm = "js ''DC:Date''"
      and attrs = "js '' x=1''" and inner = "js '' 2024-01-01 ''"
      and cl = "js ''</dc:date>''" and post = "js '' ''",
      THEN conjunct2, THEN conjunct2, THEN conjunct1, rule_format, OF plain]
  have two: "extractTag (js ''  <DC:Date x=1> 2024-01-01 </dc:date> '') DcDate
       = Inr (Some (js ''2024-01-01''))"
    by (simp only: s2 d2)
  from th [where tag = Guid and xml = "js ''no markup''",
      THEN conjunct2, THEN conjunct2, THEN conjunct2, THEN conjunct1, rule_format, OF none]
  have three: "extractTag (js ''no markup'') Guid = Inr None" .
  from one two three show ?thesis by (intro conjI)
qed




text \<open>
  C10 (as stated, it fails). The claim has every missing field of the document come out
  as the empty string. The feed-level link is \<^verbatim>\<open>extractTag(xml, 'link') || feedUrl\<close>: for
  a document without a \<^verbatim>\<open>link\<close> element it is the source URL, which is not empty.
\<close>

theorem missing_feed_link_counterexample:
  "extractTag [] Link = Inr None
   \<and> (\<exists>doc. parseRssToJson [] (js ''https://feeds.bbci.co.uk/news/rss.xml'') = Inr doc
         \<and> feed_link (feed doc) = js ''https://feeds.bbci.co.uk/news/rss.xml''
         \<and> feed_link (feed doc) \<noteq> [])"
proof -
  have "js ''https://feeds.bbci.co.uk/news/rss.xml'' \<noteq> []" by (simp add: js_def)
  then show ?thesis by (simp add: empty_document)
qed

text \<open>
  C10 (amended). \<open>parseRssToJson\<close> never throws, and neither do \<open>extractTag\<close>,
  \<open>extractAtomLink\<close> and the two element parsers: for every text and source URL it returns
  a document, with status \<open>ok\<close> and the source URL. Each field is the first non-empty text
  that \<open>extractTag\<close> (for an Atom link, \<open>extractAtomLink\<close>) finds for the tags of the field,
  in the order the code tries them, in the text searched: the whole document for the title,
  link and description of the feed, the text of the element for the fields of an item. When
  it finds an element for none of them, the field is the empty string, except the link of
  the feed, which is then the source URL. Every item of the document is the object built
  from an \<^verbatim>\<open>entry\<close> or an \<^verbatim>\<open>item\<close> element. So the handler never returns the 500 response
  "Failed to parse RSS feed" of the \<^verbatim>\<open>catch\<close> around the call. (What the
  regular-expression engine does when it runs out of memory is outside this model.)
\<close>

theorem parseRssToJson_total_and_lenient:
  "parseRssToJson xml url \<noteq> Inl err
   \<and> extractTag el tag \<noteq> Inl err \<and> extractAtomLink el \<noteq> Inl err
   \<and> (\<exists>doc. parseRssToJson xml url = Inr doc
         \<and> doc_status doc = js ''ok'' \<and> feed_url (feed doc) = url
         \<and> feed_title (feed doc) = or_str (projr (extractTag xml Title)) []
         \<and> feed_link (feed doc) = or_str (projr (extractTag xml Link)) url
         \<and> feed_description (feed doc) = or_str (projr (extractTag xml Description))
                                           (or_str (projr (extractTag xml Subtitle)) [])
         \<and> (extractTag xml Title = Inr None \<longrightarrow> feed_title (feed doc) = [])
         \<and> (extractTag xml Link = Inr None \<longrightarrow> feed_link (feed doc) = url)
         \<and> (extractTag xml Description = Inr None
              \<and> extractTag xml Subtitle = Inr None
            \<longrightarrow> feed_description (feed doc) = [])
         \<and> set (items doc) \<subseteq> range (\<lambda>el. projr (parseAtomEntry el))
                                \<union> range (\<lambda>el. projr (parseRssItem el)))
   \<and> (\<exists>i. parseRssItem el = Inr i
         \<and> item_title i = or_str (projr (extractTag el Title)) []
         \<and> pubDate i = or_str (projr (extractTag el PubDate))
                          (or_str (projr (extractTag el DcDate)) [])
         \<and> item_link i = or_str (projr (extractTag el Link))
                            (or_str (projr (extractTag el Guid)) [])
         \<and> item_description i = or_str (projr (extractTag el Description)) []
         \<and> content i = or_str (projr (extractTag el ContentEncoded))
                          (or_str (projr (extractTag el Content)) [])
         \<and> (extractTag el Title = Inr None \<longrightarrow> item_title i = [])
         \<and> (extractTag el PubDate = Inr None \<and> extractTag el DcDate = Inr None
            \<longrightarrow> pubDate i = [])
         \<and> (extractTag el Link = Inr None \<and> extractTag el Guid = Inr None
            \<longrightarrow> item_link i = [])
         \<and> (extractTag el Description = Inr None \<longrightarrow> item_description i = [])
         \<and> (extractTag el ContentEncoded = Inr None
              \<and> extractTag el Content = Inr None
            \<longrightarrow> content i = []))
   \<and> (\<exists>i. parseAtomEntry el = Inr i
         \<and> item_title i = or_str (projr (extractTag el Title)) []
         \<and> pubDate i = or_str (projr (extractTag el Published))
                          (or_str (projr (extractTag el Updated)) [])
         \<and> item_link i = or_str (projr (extractAtomLink el)) []
         \<and> item_description i = or_str (projr (extractTag el Summary))
                                   (or_str (projr (extractTag el Content)) [])
         \<and> content i = or_str (projr (extractTag el Content)) []
         \<and> (extractTag el Title = Inr None \<longrightarrow> item_title i = [])
         \<and> (extractTag el Published = Inr None \<and> extractTag el Updated = Inr None
            \<longrightarrow> pubDate i = [])
         \<and> (extractAtomLink el = Inr None \<longrightarrow> item_link i = [])
         \<and> (extractTag el Summary = Inr None \<and> extractTag el Content = Inr None
            \<longrightarrow> item_description i = [])
         \<and> (extractTag el Content = Inr None \<longrightarrow> content i = []))
   \<and> result (fetch e c rq) \<noteq> Inr (parse_failure err origin)"
proof (intro conjI)
  show "parseRssToJson xml url \<noteq> Inl err"
    using parseRssToJson_Inr [of xml url] by auto
  show "extractTag el tag \<noteq> Inl err"
    using extractTag_Inr [of el tag] by auto
  show "extractAtomLink el \<noteq> Inl err"
    using extractAtomLink_Inr [of el] by auto
  show "\<exists>doc. parseRssToJson xml url = Inr doc
         \<and> doc_status doc = js ''ok'' \<and> feed_url (feed doc) = url
         \<and> feed_title (feed doc) = or_str (projr (extractTag xml Title)) []
         \<and> feed_link (feed doc) = or_str (projr (extractTag xml Link)) url
         \<and> feed_description (feed doc) = or_str (projr (extractTag xml Description))
                                           (or_str (projr (extractTag xml Subtitle)) [])
         \<and> (extractTag xml Title = Inr None \<longrightarrow> feed_title (feed doc) = [])
         \<and> (extractTag xml Link = Inr None \<longrightarrow> feed_link (feed doc) = url)
         \<and> (extractTag xml Description = Inr None
              \<and> extractTag xml Subtitle = Inr None
            \<longrightarrow> feed_description (feed doc) = [])
         \<and> set (items doc) \<subseteq> range (\<lambda>el. projr (parseAtomEntry el))
                                \<union> range (\<lambda>el. projr (parseRssItem el))"
  proof -
    from parseRssToJson_values [of xml url] obtain doc where doc: "parseRssToJson xml url = Inr doc"
      and v: "doc_status doc = js ''ok''" "feed_url (feed doc) = url"
        "feed_title (feed doc) = or_str (projr (extractTag xml Title)) []"
        "feed_link (feed doc) = or_str (projr (extractTag xml Link)) url"
        "feed_description (feed doc) = or_str (projr (extractTag xml Description))
                                           (or_str (projr (extractTag xml Subtitle)) [])"
      by (elim exE conjE)
    from parseRssToJson_fields [of xml url] doc
    have f: "extractTag xml Title = Inr None \<longrightarrow> feed_title (feed doc) = []"
      "extractTag xml Link = Inr None \<longrightarrow> feed_link (feed doc) = url"
      "extractTag xml Description = Inr None \<and> extractTag xml Subtitle = Inr None
            \<longrightarrow> feed_description (feed doc) = []"
      by auto
    note s = parseRssToJson_items_from_elements [OF doc]
    from doc v f s show ?thesis by (intro exI [of _ doc] conjI)
  qed
  show "\<exists>i. parseRssItem el = Inr i
         \<and> item_title i = or_str (projr (extractTag el Title)) []
         \<and> pubDate i = or_str (projr (extractTag el PubDate))
                          (or_str (projr (extractTag el DcDate)) [])
         \<and> item_link i = or_str (projr (extractTag el Link))
                            (or_str (projr (extractTag el Guid)) [])
         \<and> item_description i = or_str (projr (extractTag el Description)) []
         \<and> content i = or_str (projr (extractTag el ContentEncoded))
                          (or_str (projr (extractTag el Content)) [])
         \<and> (extractTag el Title = Inr None \<longrightarrow> item_title i = [])
         \<and> (extractTag el PubDate = Inr None \<and> extractTag el DcDate = Inr None
            \<longrightarrow> pubDate i = [])
         \<and> (extractTag el Link = Inr None \<and> extractTag el Guid = Inr None
            \<longrightarrow> item_link i = [])
         \<and> (extractTag el Description = Inr None \<longrightarrow> item_description i = [])
         \<and> (extractTag el ContentEncoded = Inr None
              \<and> extractTag el Content = Inr None
            \<longrightarrow> content i = [])"
  proof -
    from parseRssItem_values [of el] obtain i where i: "parseRssItem el = Inr i"
      and v: "item_title i = or_str (projr (extractTag el Title)) []"
        "pubDate i = or_str (projr (extractTag el PubDate))
                          (or_str (projr (extractTag el DcDate)) [])"
        "item_link i = or_str (projr (extractTag el Link))
                            (or_str (projr (extractTag el Guid)) [])"
        "item_description i = or_str (projr (extractTag el Description)) []"
        "content i = or_str (projr (extractTag el ContentEncoded))
                          (or_str (projr (extractTag el Content)) [])"
      by (elim exE conjE)
    from parseRssItem_fields [of el] i
    have f: "extractTag el Title = Inr None \<longrightarrow> item_title i = []"
      "extractTag el PubDate = Inr None \<and> extractTag el DcDate = Inr None \<longrightarrow> pubDate i = []"
      "extractTag el Link = Inr None \<and> extractTag el Guid = Inr None \<longrightarrow> item_link i = []"
      "extractTag el Description = Inr None \<longrightarrow> item_description i = []"
      "extractTag el ContentEncoded = Inr None \<and> extractTag el Content = Inr None
            \<longrightarrow> content i = []"
      by auto
    from i v f show ?thesis by (intro exI [of _ i] conjI)
  qed
  show "\<exists>i. parseAtomEntry el = Inr i
         \<and> item_title i = or_str (projr (extractTag el Title)) []
         \<and> pubDate i = or_str (projr (extractTag el Published))
                          (or_str (projr (extractTag el Updated)) [])
         \<and> item_link i = or_str (projr (extractAtomLink el)) []
         \<and> item_description i = or_str (projr (extractTag el Summary))
                                   (or_str (projr (extractTag el Content)) [])
         \<and> content i = or_str (projr (extractTag el Content)) []
         \<and> (extractTag el Title = Inr None \<longrightarrow> item_title i = [])
         \<and> (extractTag el Published = Inr None \<and> extractTag el Updated = Inr None
            \<longrightarrow> pubDate i = [])
         \<and> (extractAtomLink el = Inr None \<longrightarrow> item_link i = [])
         \<and> (extractTag el Summary = Inr None \<and> extractTag el Content = Inr None
            \<longrightarrow> item_description i = [])
         \<and> (extractTag el Content = Inr None \<longrightarrow> content i = [])"
  proof -
    from parseAtomEntry_values [of el] obtain i where i: "parseAtomEntry el = Inr i"
      and v: "item_title i = or_str (projr (extractTag el Title)) []"
        "pubDate i = or_str (projr (extractTag el Published))
                          (or_str (projr (extractTag el Updated)) [])"
        "item_link i = or_str (projr (extractAtomLink el)) []"
        "item_description i = or_str (projr (extractTag el Summary))
                                   (or_str (projr (extractTag el Content)) [])"
        "content i = or_str (projr (extractTag el Content)) []"
      by (elim exE conjE)
    from parseAtomEntry_fields [of el] i
    have f: "extractTag el Title = Inr None \<longrightarrow> item_title i = []"
      "extractTag el Published = Inr None \<and> extractTag el Updated = Inr None \<longrightarrow> pubDate i = []"
      "extractAtomLink el = Inr None \<longrightarrow> item_link i = []"
      "extractTag el Summary = Inr None \<and> extractTag el Content = Inr None
            \<longrightarrow> item_description i = []"
      "extractTag el Content = Inr None \<longrightarrow> content i = []"
      by auto
    from i v f show ?thesis by (intro exI [of _ i] conjI)
  qed
  show "result (fetch e c rq) \<noteq> Inr (parse_failure err origin)"
    by (rule fetch_not_parse_failure)
qed

theorem parseRssToJson_total_and_lenient_witness:
  "(\<exists>doc. parseRssToJson example_feed (js ''https://feeds.bbci.co.uk/news/rss.xml'') = Inr doc
       \<and> feed_link (feed doc) = js ''https://feeds.bbci.co.uk/news/rss.xml''
       \<and> feed_description (feed doc) = [])
   \<and> (\<exists>i. parseRssItem (simple_item (js ''A'')) = Inr i
       \<and> pubDate i = [] \<and> item_link i = [] \<and> item_description i = [] \<and> content i = [])
   \<and> (\<exists>doc. parseRssToJson untitled_feed (js ''https://feeds.bbci.co.uk/news/rss.xml'') = Inr doc
       \<and> feed_title (feed doc) = js ''T1'')"
proof -
  let ?u = "js ''https://feeds.bbci.co.uk/news/rss.xml''"
  let ?el = "simple_item (js ''A'')"
  let ?rq = "\<lparr> req_method = js ''GET'', url_param = None, format_param = None,
               origin_header = None \<rparr>"
  have plain: "60 \<notin> set (js ''A'')" by (simp add: js_def)
  note none = extractTag_simple_item_other [OF plain]
  note th = parseRssToJson_total_and_lenient
    [where err = "TypeError []" and el = ?el and tag = Title and e = example_env
       and c = empty_cache and rq = ?rq and origin = "[]" and url = ?u]
  from th [where xml = example_feed, THEN conjunct2, THEN conjunct2, THEN conjunct2, THEN conjunct1]
  obtain doc where doc: "parseRssToJson example_feed ?u = Inr doc"
    and link: "extractTag example_feed Link = Inr None \<longrightarrow> feed_link (feed doc) = ?u"
    and descr: "extractTag example_feed Description = Inr None
              \<and> extractTag example_feed Subtitle = Inr None
            \<longrightarrow> feed_description (feed doc) = []"
    by (elim exE conjE)
  from link descr have "feed_link (feed doc) = ?u" "feed_description (feed doc) = []"
    by (simp_all add: example_feed_missing_tags)
  with doc have one: "\<exists>doc. parseRssToJson example_feed ?u = Inr doc
       \<and> feed_link (feed doc) = ?u \<and> feed_description (feed doc) = []"
    by (intro exI [of _ doc] conjI)
  from th [where xml = example_feed, THEN conjunct2, THEN conjunct2, THEN conjunct2, THEN conjunct2,
      THEN conjunct1]
  obtain i where i: "parseRssItem ?el = Inr i"
    and f1: "extractTag ?el PubDate = Inr None \<and> extractTag ?el DcDate = Inr None
            \<longrightarrow> pubDate i = []"
    and f2: "extractTag ?el Link = Inr None \<and> extractTag ?el Guid = Inr None
            \<longrightarrow> item_link i = []"
    and f3: "extractTag ?el Description = Inr None \<longrightarrow> item_description i = []"
    and f4: "extractTag ?el ContentEncoded = Inr None
              \<and> extractTag ?el Content = Inr None
            \<longrightarrow> content i = []"
    by (elim exE conjE)
  from f1 f2 f3 f4 have "pubDate i = []" "item_link i = []" "item_description i = []" "content i = []"
    by (simp_all add: none)
  with i have two: "\<exists>i. parseRssItem ?el = Inr i
       \<and> pubDate i = [] \<and> item_link i = [] \<and> item_description i = [] \<and> content i = []"
    by (intro exI [of _ i] conjI)
  from th [where xml = untitled_feed, THEN conjunct2, THEN conjunct2, THEN conjunct2, THEN conjunct1]
  obtain d3 where d3: "parseRssToJson untitled_feed ?u = Inr d3"
    and title: "feed_title (feed d3) = or_str (projr (extractTag untitled_feed Title)) []"
    by (elim exE conjE)
  from title have "feed_title (feed d3) = js ''T1''"
    by (simp add: untitled_feed_title or_str_def js_def)
  with d3 have three: "\<exists>doc. parseRssToJson untitled_feed ?u = Inr doc
       \<and> feed_title (feed doc) = js ''T1''"
    by (intro exI [of _ d3] conjI)
  from one two three show ?thesis by (intro conjI)
qed

section \<open>Cache policy: results\<close>

text \<open>
  C8. \<open>getCacheTtl\<close> is the reference policy of the specification: the first rule that
  matches, in the order content type (xml or rss: 300), gdelt (180), coingecko (60),
  usgs (300), fred (3600), decides, and 120 is the default. It is a total function of the
  two strings: the equation holds for every pair, and the value is always one of the six
  listed numbers.
\<close>

theorem getCacheTtl_refines_spec:
  "getCacheTtl contentType host = ttlFor_spec contentType host
   \<and> getCacheTtl contentType host \<in> {300, 180, 60, 3600, 120}"
proof
  show "getCacheTtl contentType host = ttlFor_spec contentType host"
  proof (cases "str_includes contentType (js ''xml'') \<or> str_includes contentType (js ''rss'')")
    case True
    then show ?thesis
      by (simp add: getCacheTtl_def ttlFor_spec_def ttl_rules_def)
  next
    case False
    then have "find (\<lambda>rule. fst rule contentType host) ttl_rules
        = find (\<lambda>rule. fst rule contentType host) (tl ttl_rules)"
      by (simp add: ttl_rules_def)
    with False show ?thesis
      by (simp add: getCacheTtl_def ttlFor_spec_def ttl_rules_def)
  qed
  show "getCacheTtl contentType host \<in> {300, 180, 60, 3600, 120}"
    by (simp add: getCacheTtl_def)
qed

text \<open>
  C3 (as stated, it fails). The claim gives a host with the seismological marker 300, a
  host with the macroeconomic marker 3600 and a host with no marker 120, whatever the
  content type. The rules are tried in order, and the content-type rule comes first: the
  FRED host with an XML content type gets 300.
\<close>

theorem ttl_by_host_alone_counterexample:
  "\<not> (\<forall>contentType host.
        (str_includes host (js ''usgs'') \<longrightarrow> getCacheTtl contentType host = 300)
      \<and> (str_includes host (js ''fred'') \<longrightarrow> getCacheTtl contentType host = 3600)
      \<and> (\<not> str_includes host (js ''gdelt'') \<and> \<not> str_includes host (js ''coingecko'')
           \<and> \<not> str_includes host (js ''usgs'') \<and> \<not> str_includes host (js ''fred'')
           \<longrightarrow> getCacheTtl contentType host = 120))"
proof
  assume all: "\<forall>contentType host.
        (str_includes host (js ''usgs'') \<longrightarrow> getCacheTtl contentType host = 300)
      \<and> (str_includes host (js ''fred'') \<longrightarrow> getCacheTtl contentType host = 3600)
      \<and> (\<not> str_includes host (js ''gdelt'') \<and> \<not> str_includes host (js ''coingecko'')
           \<and> \<not> str_includes host (js ''usgs'') \<and> \<not> str_includes host (js ''fred'')
           \<longrightarrow> getCacheTtl contentType host = 120)"
  have fred: "str_includes (js ''fred.stlouisfed.org'') (js ''fred'')"
    by (simp add: js_def)
  have xml: "str_includes (js ''application/xml'') (js ''xml'')"
    by (simp add: js_def)
  from all fred have "getCacheTtl (js ''application/xml'') (js ''fred.stlouisfed.org'') = 3600"
    by blast
  moreover from xml have "getCacheTtl (js ''application/xml'') (js ''fred.stlouisfed.org'') = 300"
    by (simp add: getCacheTtl_def)
  ultimately show False by simp
qed

text \<open>
  C3 (amended). The host decides only where no earlier rule matches. A host with the
  marker \<open>usgs\<close> and neither \<open>gdelt\<close> nor \<open>coingecko\<close> gets 300 for every content type.
  When the content type contains neither \<open>xml\<close> nor \<open>rss\<close> (as the empty content type the
  worker passes for \<^verbatim>\<open>cf.cacheTtl\<close>), a host with the marker \<open>fred\<close> and none of \<open>gdelt\<close>,
  \<open>coingecko\<close>, \<open>usgs\<close> gets 3600, and a host with none of the four markers gets 120.
  A content type that contains \<open>xml\<close> or \<open>rss\<close> gets 300 whatever the host.
\<close>

theorem ttl_by_host_when_no_earlier_rule:
  "(str_includes host (js ''usgs'') \<and> \<not> str_includes host (js ''gdelt'')
      \<and> \<not> str_includes host (js ''coingecko'') \<longrightarrow> getCacheTtl contentType host = 300)
   \<and> (\<not> str_includes contentType (js ''xml'') \<and> \<not> str_includes contentType (js ''rss'')
      \<and> str_includes host (js ''fred'') \<and> \<not> str_includes host (js ''gdelt'')
      \<and> \<not> str_includes host (js ''coingecko'') \<and> \<not> str_includes host (js ''usgs'')
      \<longrightarrow> getCacheTtl contentType host = 3600)
   \<and> (\<not> str_includes contentType (js ''xml'') \<and> \<not> str_includes contentType (js ''rss'')
      \<and> \<not> str_includes host (js ''gdelt'') \<and> \<not> str_includes host (js ''coingecko'')
      \<and> \<not> str_includes host (js ''usgs'') \<and> \<not> str_includes host (js ''fred'')
      \<longrightarrow> getCacheTtl contentType host = 120)
   \<and> (str_includes contentType (js ''xml'') \<or> str_includes contentType (js ''rss'')
      \<longrightarrow> getCacheTtl contentType host = 300)"
proof (intro conjI impI)
  assume "str_includes host (js ''usgs'') \<and> \<not> str_includes host (js ''gdelt'')
      \<and> \<not> str_includes host (js ''coingecko'')"
  then show "getCacheTtl contentType host = 300"
    by (simp add: getCacheTtl_def)
next
  assume "\<not> str_includes contentType (js ''xml'') \<and> \<not> str_includes contentType (js ''rss'')
      \<and> str_includes host (js ''fred'') \<and> \<not> str_includes host (js ''gdelt'')
      \<and> \<not> str_includes host (js ''coingecko'') \<and> \<not> str_includes host (js ''usgs'')"
  then show "getCacheTtl contentType host = 3600"
    by (simp add: getCacheTtl_def)
next
  assume "\<not> str_includes contentType (js ''xml'') \<and> \<not> str_includes contentType (js ''rss'')
      \<and> \<not> str_includes host (js ''gdelt'') \<and> \<not> str_includes host (js ''coingecko'')
      \<and> \<not> str_includes host (js ''usgs'') \<and> \<not> str_includes host (js ''fred'')"
  then show "getCacheTtl contentType host = 120"
    by (simp add: getCacheTtl_def)
next
  assume "str_includes contentType (js ''xml'') \<or> str_includes contentType (js ''rss'')"
  then show "getCacheTtl contentType host = 300"
    by (simp add: getCacheTtl_def)
qed

theorem ttl_by_host_when_no_earlier_rule_witness:
  "getCacheTtl (js ''text/html'') (js ''earthquake.usgs.gov'') = 300
   \<and> getCacheTtl [] (js ''fred.stlouisfed.org'') = 3600
   \<and> getCacheTtl (js ''application/json'') (js ''example.com'') = 120
   \<and> getCacheTtl (js ''application/rss+xml'') (js ''fred.stlouisfed.org'') = 300
   \<and> getCacheTtl (js ''application/rss'') (js ''api.coingecko.com'') = 300"
proof -
  have usgs: "str_includes (js ''earthquake.usgs.gov'') (js ''usgs'')
      \<and> \<not> str_includes (js ''earthquake.usgs.gov'') (js ''gdelt'')
      \<and> \<not> str_includes (js ''earthquake.usgs.gov'') (js ''coingecko'')"
    by (simp add: js_def)
  have fred: "\<not> str_includes [] (js ''xml'') \<and> \<not> str_includes [] (js ''rss'')
      \<and> str_includes (js ''fred.stlouisfed.org'') (js ''fred'')
      \<and> \<not> str_includes (js ''fred.stlouisfed.org'') (js ''gdelt'')
      \<and> \<not> str_includes (js ''fred.stlouisfed.org'') (js ''coingecko'')
      \<and> \<not> str_includes (js ''fred.stlouisfed.org'') (js ''usgs'')"
    by (simp add: js_def)
  have other: "\<not> str_includes (js ''application/json'') (js ''xml'')
      \<and> \<not> str_includes (js ''application/json'') (js ''rss'')
      \<and> \<not> str_includes (js ''example.com'') (js ''gdelt'')
      \<and> \<not> str_includes (js ''example.com'') (js ''coingecko'')
      \<and> \<not> str_includes (js ''example.com'') (js ''usgs'')
      \<and> \<not> str_includes (js ''example.com'') (js ''fred'')"
    by (simp add: js_def)
  have xml: "str_includes (js ''application/rss+xml'') (js ''xml'')"
    by (simp add: js_def)
  have rss: "str_includes (js ''application/rss'') (js ''rss'')"
    by (simp add: js_def)
  note th = ttl_by_host_when_no_earlier_rule
  from th [of "js ''earthquake.usgs.gov''" "js ''text/html''", THEN conjunct1, rule_format, OF usgs]
  have one: "getCacheTtl (js ''text/html'') (js ''earthquake.usgs.gov'') = 300" .
  from th [of "js ''fred.stlouisfed.org''" "[]", THEN conjunct2, THEN conjunct1, rule_format,
      OF fred]
  have two: "getCacheTtl [] (js ''fred.stlouisfed.org'') = 3600" .
  from th [of "js ''example.com''" "js ''application/json''", THEN conjunct2, THEN conjunct2,
      THEN conjunct1, rule_format, OF other]
  have three: "getCacheTtl (js ''application/json'') (js ''example.com'') = 120" .
  from th [of "js ''fred.stlouisfed.org''" "js ''application/rss+xml''", THEN conjunct2,
      THEN conjunct2, THEN conjunct2, rule_format, OF disjI1, OF xml]
  have four: "getCacheTtl (js ''application/rss+xml'') (js ''fred.stlouisfed.org'') = 300" .
  from th [of "js ''api.coingecko.com''" "js ''application/rss''", THEN conjunct2,
      THEN conjunct2, THEN conjunct2, rule_format, OF disjI2, OF rss]
  have five: "getCacheTtl (js ''application/rss'') (js ''api.coingecko.com'') = 300" .
  from one two three four five show ?thesis by (intro conjI)
qed

end
